theory Spec2Isabelle
  imports Main "HOL-Library.Word"
begin

section \<open>Shared vocabulary\<close>

text \<open>
  Every way in which one of the modelled member functions can fail to return normally:
  a DCHECK that does not hold (or the out-of-range read behind it), a signed
  multiplication that leaves the range of \<open>int\<close>, the dereference of a pointer that
  refers to no object, and \<open>set_value\<close> on a promise that is already satisfied.
\<close>

datatype fault =
    StructuralViolation
  | SignedOverflow
  | InvalidPointer
  | PromiseAlreadySatisfied

type_synonym int32 = "32 word"
type_synonym size_t = "64 word"

text \<open>Thrift's TUniqueId: the two halves \<open>hi\<close> and \<open>lo\<close>.\<close>

type_synonym TUniqueId = "64 word \<times> 64 word"

text \<open>
  Modelled from the spec: the class Status (common/status.h) is not among the sources.
  A status carries a code and a message; \<open>Status::OK()\<close> is the success value, which is
  also what a default-constructed Status holds, and \<open>is_cancelled()\<close> tells whether the
  status is a cancellation.
\<close>

datatype TStatusCode = OK | CANCELLED | INTERNAL_ERROR | MEM_LIMIT_EXCEEDED | TIMEOUT

datatype Status = Status (code: TStatusCode) (error_msg: string)

definition Status_OK :: Status where
  "Status_OK = Status OK []"

definition is_cancelled :: "Status \<Rightarrow> bool" where
  "is_cancelled s = (code s = CANCELLED)"


section \<open>FragmentContext (fragment\_context.h)\<close>

text \<open>
  The member \<open>_final_status\<close> is a \<open>std::atomic<Status*>\<close>. The member functions store
  two values into it: the null pointer and the address of the member \<open>_s_status\<close>. Any
  other content is a pointer to no Status object.
\<close>

datatype status_ptr = nullptr | s_status_addr | wild_ptr nat

type_synonym DriverPtr = nat

text \<open>
  The fields the modelled member functions read or write. \<open>finish_promise\<close> tells
  whether \<open>_finish_promise\<close> has been satisfied.
\<close>

record FragmentContext =
  query_id :: TUniqueId
  fragment_instance_id :: TUniqueId
  finish_promise :: bool
  drivers :: "DriverPtr list"
  num_drivers :: size_t
  final_status_ptr :: status_ptr
  cancel_flag :: bool
  s_status :: Status

text \<open>
  The constructor \<open>FragmentContext() : _cancel_flag(false) {}\<close>. Its initialiser list
  names the cancel flag only, and the declarations of \<open>_num_drivers\<close> and
  \<open>_final_status\<close> carry no initialiser: what these two atomics hold after construction
  is not fixed by the class, so their initial contents are arguments here.
\<close>

definition FragmentContext_ctor :: "size_t \<Rightarrow> status_ptr \<Rightarrow> FragmentContext" where
  "FragmentContext_ctor n0 p0 =
     \<lparr>query_id = (0, 0), fragment_instance_id = (0, 0), finish_promise = False,
      drivers = [], num_drivers = n0, final_status_ptr = p0, cancel_flag = False,
      s_status = Status_OK\<rparr>"

definition set_query_id :: "TUniqueId \<Rightarrow> FragmentContext \<Rightarrow> FragmentContext" where
  "set_query_id q c = c\<lparr>query_id := q\<rparr>"

definition set_fragment_instance_id :: "TUniqueId \<Rightarrow> FragmentContext \<Rightarrow> FragmentContext" where
  "set_fragment_instance_id i c = c\<lparr>fragment_instance_id := i\<rparr>"

text \<open>
  \<open>set_drivers\<close>: \<open>_drivers = std::move(drivers); _num_drivers.store(_drivers.size());
  _final_status.store(nullptr);\<close>. The size of a vector is a \<open>size_t\<close>.
\<close>

definition set_drivers :: "DriverPtr list \<Rightarrow> FragmentContext \<Rightarrow> FragmentContext" where
  "set_drivers ds c =
     c\<lparr>drivers := ds, num_drivers := of_nat (length ds), final_status_ptr := nullptr\<rparr>"

text \<open>\<open>_num_drivers.fetch_sub(1)\<close>: one atomic step that returns the value it found.\<close>

definition fetch_sub_num_drivers :: "size_t \<Rightarrow> FragmentContext \<Rightarrow> size_t \<times> FragmentContext" where
  "fetch_sub_num_drivers k c = (num_drivers c, c\<lparr>num_drivers := num_drivers c - k\<rparr>)"

definition count_down_drivers :: "FragmentContext \<Rightarrow> bool \<times> FragmentContext" where
  "count_down_drivers c =
     (case fetch_sub_num_drivers 1 c of (observed, c') \<Rightarrow> (observed = 1, c'))"

text \<open>
  Each driver thread calls \<open>count_down_drivers\<close> once. As the call is a single atomic
  read-modify-write, an interleaving of the threads is the order in which their calls
  take effect: a schedule lists the thread ids in that order. The run records, for each
  call, the thread, the counter value its decrement observed (the value the counter
  holds when the \<open>fetch_sub\<close> takes effect, which is what \<open>fetch_sub\<close> returns), and
  what the call returned.
\<close>

fun count_down_schedule ::
  "'t list \<Rightarrow> FragmentContext \<Rightarrow> ('t \<times> size_t \<times> bool) list \<times> FragmentContext" where
  "count_down_schedule [] c = ([], c)"
| "count_down_schedule (t # ts) c =
     (case count_down_drivers c of (r, c1) \<Rightarrow>
        (case count_down_schedule ts c1 of (rs, c2) \<Rightarrow>
           ((t, num_drivers c, r) # rs, c2)))"

text \<open>\<open>final_status()\<close>: OK for the null pointer, otherwise the Status pointed to.\<close>

definition final_status :: "FragmentContext \<Rightarrow> fault + Status" where
  "final_status c =
     (case final_status_ptr c of
        nullptr \<Rightarrow> Inr Status_OK
      | s_status_addr \<Rightarrow> Inr (s_status c)
      | wild_ptr a \<Rightarrow> Inl InvalidPointer)"

text \<open>\<open>_final_status.compare_exchange_strong(expected, desired)\<close> as one atomic step.\<close>

definition compare_exchange_strong ::
  "status_ptr \<Rightarrow> status_ptr \<Rightarrow> FragmentContext \<Rightarrow> bool \<times> FragmentContext" where
  "compare_exchange_strong expected desired c =
     (if final_status_ptr c = expected then (True, c\<lparr>final_status_ptr := desired\<rparr>)
      else (False, c))"

text \<open>
  The warning written by \<open>set_final_status\<close>: query id, instance id and the status
  printed as the reason.
\<close>

datatype log_line = Canceled_warning TUniqueId TUniqueId Status

text \<open>
  \<open>set_final_status\<close>, statement by statement. After the exchange has succeeded the slot
  holds the address of \<open>_s_status\<close>, so \<open>_final_status.load()->is_cancelled()\<close> and the
  \<open>final_status()\<close> printed as the reason both read \<open>_s_status\<close>; the assignment
  \<open>_s_status = status\<close> is the last statement of the branch. The function returns the
  lines it logged.
\<close>

definition set_final_status :: "Status \<Rightarrow> FragmentContext \<Rightarrow> log_line list \<times> FragmentContext" where
  "set_final_status status c =
     (if final_status_ptr c \<noteq> nullptr then ([], c)
      else
        (case compare_exchange_strong nullptr s_status_addr c of
           (False, c1) \<Rightarrow> ([], c1)
         | (True, c1) \<Rightarrow>
             (let logged =
                    (if is_cancelled (s_status c1)
                     then [Canceled_warning (query_id c1) (fragment_instance_id c1) (s_status c1)]
                     else [])
              in (logged, c1\<lparr>s_status := status\<rparr>))))"

definition cancel :: "Status \<Rightarrow> FragmentContext \<Rightarrow> log_line list \<times> FragmentContext" where
  "cancel status c = set_final_status status (c\<lparr>cancel_flag := True\<rparr>)"

definition finish :: "FragmentContext \<Rightarrow> log_line list \<times> FragmentContext" where
  "finish c = cancel Status_OK c"

definition is_canceled :: "FragmentContext \<Rightarrow> bool" where
  "is_canceled c = (cancel_flag c = True)"

text \<open>The calls a holder of the context can make, and the state each one leaves.\<close>

datatype context_op =
    SetQueryId TUniqueId
  | SetFragmentInstanceId TUniqueId
  | SetDrivers "DriverPtr list"
  | CountDownDrivers
  | SetFinalStatus Status
  | Cancel Status
  | Finish
  | FinalStatus
  | IsCanceled

fun apply_op :: "context_op \<Rightarrow> FragmentContext \<Rightarrow> FragmentContext" where
  "apply_op (SetQueryId q) c = set_query_id q c"
| "apply_op (SetFragmentInstanceId i) c = set_fragment_instance_id i c"
| "apply_op (SetDrivers ds) c = set_drivers ds c"
| "apply_op CountDownDrivers c = snd (count_down_drivers c)"
| "apply_op (SetFinalStatus s) c = snd (set_final_status s c)"
| "apply_op (Cancel s) c = snd (cancel s c)"
| "apply_op Finish c = snd (finish c)"
| "apply_op FinalStatus c = c"
| "apply_op IsCanceled c = c"

fun apply_ops :: "context_op list \<Rightarrow> FragmentContext \<Rightarrow> FragmentContext" where
  "apply_ops [] c = c"
| "apply_ops (x # xs) c = apply_ops xs (apply_op x c)"


text \<open>A run of calls of \<open>set_final_status\<close>, one for each status of the list.\<close>

fun set_final_status_all :: "Status list \<Rightarrow> FragmentContext \<Rightarrow> FragmentContext" where
  "set_final_status_all [] c = c"
| "set_final_status_all (s # ss) c = set_final_status_all ss (snd (set_final_status s c))"


section \<open>FragmentContextManager (fragment\_context.cpp)\<close>

text \<open>
  The registry maps a fragment id to a \<open>FragmentContextPtr\<close>, a shared pointer, so the
  same context object may be reachable under more than one handle. \<open>objects\<close> holds
  the contexts the pointers refer to; \<open>fragment_contexts\<close> is the member
  \<open>_fragment_contexts\<close>. Every member function takes the lock for its whole body, so
  calls take effect one after the other.
\<close>

type_synonym FragmentContextPtr = nat

record FragmentContextManager =
  fragment_contexts :: "TUniqueId \<rightharpoonup> FragmentContextPtr"
  objects :: "FragmentContextPtr \<rightharpoonup> FragmentContext"

text \<open>
  Modelled from the spec: the type FragmentPromise (exec/pipeline/pipeline\_fwd.h) is
  not among the sources. It is the completion signal of the fragment, released by
  \<open>set_value()\<close>; as for a \<open>std::promise\<close>, a signal that has been released cannot be
  released again, and the attempt raises.
\<close>

definition set_value :: "FragmentContext \<Rightarrow> fault + FragmentContext" where
  "set_value c =
     (if finish_promise c then Inl PromiseAlreadySatisfied
      else Inr (c\<lparr>finish_promise := True\<rparr>))"

definition register_ctx ::
  "TUniqueId \<Rightarrow> FragmentContextPtr \<Rightarrow> FragmentContextManager \<Rightarrow> FragmentContextManager" where
  "register_ctx fragment_id fragment_ctx m =
     (if fragment_contexts m fragment_id \<noteq> None then m
      else m\<lparr>fragment_contexts := (fragment_contexts m)(fragment_id \<mapsto> fragment_ctx)\<rparr>)"

text \<open>\<open>get\<close>: the registered pointer, or \<open>None\<close> for the null pointer it returns otherwise.\<close>

definition get :: "TUniqueId \<Rightarrow> FragmentContextManager \<Rightarrow> FragmentContextPtr option" where
  "get fragment_id m = fragment_contexts m fragment_id"

text \<open>
  \<open>unregister\<close>: when the id is found, \<open>it->second->_finish_promise.set_value()\<close> and
  then \<open>erase(it)\<close>. An exception of \<open>set_value\<close> leaves the function before the erase.
\<close>

definition unregister :: "TUniqueId \<Rightarrow> FragmentContextManager \<Rightarrow> fault + FragmentContextManager" where
  "unregister fragment_id m =
     (case fragment_contexts m fragment_id of
        None \<Rightarrow> Inr m
      | Some p \<Rightarrow>
          (case objects m p of
             None \<Rightarrow> Inl InvalidPointer
           | Some c \<Rightarrow>
               (case set_value c of
                  Inl e \<Rightarrow> Inl e
                | Inr c' \<Rightarrow>
                    Inr (m\<lparr>objects := (objects m)(p \<mapsto> c'),
                           fragment_contexts := (fragment_contexts m)(fragment_id := None)\<rparr>))))"


section \<open>PipelineBuilderContext (pipeline\_builder.cpp)\<close>

text \<open>
  Modelled from the spec: RuntimeState (runtime/runtime\_state.h) is not among the
  sources. The builder reads one thing from it, \<open>chunk_size()\<close>, the target batch size
  in rows per chunk, taken here as a C++ \<open>int\<close>.
\<close>

record RuntimeState =
  chunk_size :: int32

text \<open>
  Modelled from the spec: the exchanger classes BroadcastExchanger,
  PassthroughExchanger and PartitionExchanger and the class
  LocalExchangeMemoryManager are not among the sources. A local exchange has a routing
  policy out of Broadcast, Passthrough and Partition, a memory budget and one bound
  source. Each exchanger is constructed from the memory manager (here its row budget,
  the \<open>size_t\<close> argument of the manager's constructor) and from the source factory it
  feeds (here that factory's operator id); the partition exchanger takes the partition
  type, the partition expressions and the parallelism of its producer as well.
\<close>

type_synonym TPartitionType = nat
type_synonym ExprContextPtr = nat

datatype LocalExchanger =
    BroadcastExchanger (mem_mgr: size_t) (source_id: "32 word")
  | PassthroughExchanger (mem_mgr: size_t) (source_id: "32 word")
  | PartitionExchanger (mem_mgr: size_t) (source_id: "32 word")
      TPartitionType "ExprContextPtr list" size_t

text \<open>
  Modelled from the spec: the operator factory classes are not among the sources. An
  operator factory has an id and a plan-node id and is a source or not; a source
  factory has a degree of parallelism, a \<open>size_t\<close>. The planner supplies source
  factories and other factories; the builder adds the two ends of a local exchange:
  the source end is made from operator id, plan-node id and memory manager, the sink
  end from operator id, plan-node id and exchanger. A sink refers to its exchanger by
  the exchanger's address, its position among the exchangers allocated so far, so
  that two sinks of one exchanger can be told from sinks of two equal ones. The
  builder also hands the runtime state to the source end (\<open>set_runtime_state\<close>),
  which has no part in the structure built and is left out.
\<close>

datatype OpFactory =
    SourceOperatorFactory "32 word" "32 word" size_t
  | OperatorFactory "32 word" "32 word"
  | LocalExchangeSourceOperatorFactory "32 word" "32 word" size_t size_t
  | LocalExchangeSinkOperatorFactory "32 word" "32 word" nat

type_synonym OpFactories = "OpFactory list"

fun is_source :: "OpFactory \<Rightarrow> bool" where
  "is_source (SourceOperatorFactory i n d) = True"
| "is_source (LocalExchangeSourceOperatorFactory i n m d) = True"
| "is_source (OperatorFactory i n) = False"
| "is_source (LocalExchangeSinkOperatorFactory i n x) = False"

text \<open>
  \<open>down_cast<SourceOperatorFactory*>(op)->degree_of_parallelism()\<close>: the cast is
  valid for source factories only.
\<close>

fun source_degree_of_parallelism :: "OpFactory \<Rightarrow> fault + size_t" where
  "source_degree_of_parallelism (SourceOperatorFactory i n d) = Inr d"
| "source_degree_of_parallelism (LocalExchangeSourceOperatorFactory i n m d) = Inr d"
| "source_degree_of_parallelism (OperatorFactory i n) = Inl StructuralViolation"
| "source_degree_of_parallelism (LocalExchangeSinkOperatorFactory i n x) = Inl StructuralViolation"

text \<open>\<open>set_degree_of_parallelism\<close> on a freshly made exchange source.\<close>

fun set_degree_of_parallelism :: "size_t \<Rightarrow> OpFactory \<Rightarrow> OpFactory" where
  "set_degree_of_parallelism d (LocalExchangeSourceOperatorFactory i n m d0) =
     LocalExchangeSourceOperatorFactory i n m d"
| "set_degree_of_parallelism d (SourceOperatorFactory i n d0) = SourceOperatorFactory i n d"
| "set_degree_of_parallelism d (OperatorFactory i n) = OperatorFactory i n"
| "set_degree_of_parallelism d (LocalExchangeSinkOperatorFactory i n x) =
     LocalExchangeSinkOperatorFactory i n x"

datatype Pipeline = Pipeline OpFactories

text \<open>
  Modelled from the spec: the class PipelineBuilderContext is declared in
  exec/pipeline/pipeline\_builder.h, which is not among the sources. It holds the
  result list of sealed pipelines, the degree of parallelism of the fragment, and the
  generators of operator ids and of pseudo plan-node ids, taken as counters: operator
  ids count upwards, pseudo plan-node ids downwards, and each call hands out the
  current value. \<open>add_pipeline\<close> seals the given operator-factory sequence into a
  Pipeline and appends it to the result list.
\<close>

record PipelineBuilderContext =
  pipelines :: "Pipeline list"
  operator_id_counter :: "32 word"
  pseudo_plan_node_id_counter :: "32 word"
  degree_of_parallelism :: size_t

definition add_pipeline :: "OpFactories \<Rightarrow> PipelineBuilderContext \<Rightarrow> PipelineBuilderContext" where
  "add_pipeline operators ctx = ctx\<lparr>pipelines := pipelines ctx @ [Pipeline operators]\<rparr>"

definition next_operator_id :: "PipelineBuilderContext \<Rightarrow> 32 word \<times> PipelineBuilderContext" where
  "next_operator_id ctx =
     (operator_id_counter ctx, ctx\<lparr>operator_id_counter := operator_id_counter ctx + 1\<rparr>)"

definition next_pseudo_plan_node_id :: "PipelineBuilderContext \<Rightarrow> 32 word \<times> PipelineBuilderContext" where
  "next_pseudo_plan_node_id ctx =
     (pseudo_plan_node_id_counter ctx,
      ctx\<lparr>pseudo_plan_node_id_counter := pseudo_plan_node_id_counter ctx - 1\<rparr>)"

text \<open>
  The exchangers allocated with \<open>make_shared\<close> so far, oldest first; the address of an
  exchanger is its position. The builder's state is this store with the context.
\<close>

type_synonym exchanger_store = "LocalExchanger list"
type_synonym builder_state = "exchanger_store \<times> PipelineBuilderContext"

text \<open>
  The arithmetic of \<open>int\<close>: \<open>std::max\<close>, and a product whose mathematical value must
  fit, as signed overflow has no defined result.
\<close>

definition int_max :: "int32 \<Rightarrow> int32 \<Rightarrow> int32" where
  "int_max a b = (if sint a < sint b then b else a)"

definition int_mul :: "int32 \<Rightarrow> int32 \<Rightarrow> fault + int32" where
  "int_mul a b =
     (if - (2 ^ 31) \<le> sint a * sint b \<and> sint a * sint b < 2 ^ 31 then Inr (a * b)
      else Inl SignedOverflow)"

text \<open>
  A call returns the operator sequence it hands back, the predecessor sequence as the
  call leaves it (the argument is a reference, and the sink is appended in place), and
  the builder's state.
\<close>

type_synonym interpolation = "fault + (OpFactories \<times> OpFactories \<times> builder_state)"

text \<open>
  \<open>maybe_interpolate_local_passthrough_exchange(state, pred_operators, num_receivers)\<close>.
  The comparison of the source's parallelism, a \<open>size_t\<close>, with the \<open>int\<close>
  \<open>num_receivers\<close> converts the latter to \<open>size_t\<close>; so do the constructor of the
  memory manager and \<open>set_degree_of_parallelism\<close>.
\<close>

definition maybe_interpolate_local_passthrough_exchange ::
  "RuntimeState \<Rightarrow> OpFactories \<Rightarrow> int32 \<Rightarrow> builder_state \<Rightarrow> interpolation" where
  "maybe_interpolate_local_passthrough_exchange state pred_operators num_receivers \<sigma> =
     (case pred_operators of
        [] \<Rightarrow> Inl StructuralViolation
      | op0 # rest \<Rightarrow>
          if \<not> is_source op0 then Inl StructuralViolation
          else
            (case source_degree_of_parallelism op0 of
               Inl e \<Rightarrow> Inl e
             | Inr dop \<Rightarrow>
                 if dop = scast num_receivers then Inr (pred_operators, pred_operators, \<sigma>)
                 else
                   (case next_pseudo_plan_node_id (snd \<sigma>) of (pseudo_plan_node_id, ctx1) \<Rightarrow>
                    let buffer_size = int_max num_receivers (ucast dop) in
                    (case int_mul (chunk_size state) buffer_size of
                       Inl e \<Rightarrow> Inl e
                     | Inr rows \<Rightarrow>
                         let mem = (scast rows :: size_t) in
                         (case next_operator_id ctx1 of (source_op_id, ctx2) \<Rightarrow>
                          let local_exchange_source =
                                LocalExchangeSourceOperatorFactory source_op_id pseudo_plan_node_id mem 1;
                              local_exchange = PassthroughExchanger mem source_op_id;
                              store' = fst \<sigma> @ [local_exchange]
                          in
                          (case next_operator_id ctx2 of (sink_op_id, ctx3) \<Rightarrow>
                           let local_exchange_sink =
                                 LocalExchangeSinkOperatorFactory sink_op_id pseudo_plan_node_id
                                   (length (fst \<sigma>));
                               pred' = pred_operators @ [local_exchange_sink];
                               ctx4 = add_pipeline pred' ctx3
                           in Inr ([set_degree_of_parallelism (scast num_receivers) local_exchange_source],
                                   pred', (store', ctx4))))))))"

text \<open>The two-argument overload: one receiver.\<close>

definition maybe_interpolate_local_passthrough_exchange_1 ::
  "RuntimeState \<Rightarrow> OpFactories \<Rightarrow> builder_state \<Rightarrow> interpolation" where
  "maybe_interpolate_local_passthrough_exchange_1 state pred_operators \<sigma> =
     maybe_interpolate_local_passthrough_exchange state pred_operators 1 \<sigma>"

text \<open>
  \<open>maybe_interpolate_local_broadcast_exchange\<close>. Apart from the case of one receiver
  it neither checks nor reads the predecessor sequence. The budget is the \<open>int\<close>
  product \<open>chunk_size() * num_receivers * num_receivers\<close>, evaluated left to right.
\<close>

definition maybe_interpolate_local_broadcast_exchange ::
  "RuntimeState \<Rightarrow> OpFactories \<Rightarrow> int32 \<Rightarrow> builder_state \<Rightarrow> interpolation" where
  "maybe_interpolate_local_broadcast_exchange state pred_operators num_receivers \<sigma> =
     (if num_receivers = 1
      then maybe_interpolate_local_passthrough_exchange_1 state pred_operators \<sigma>
      else
        (case next_pseudo_plan_node_id (snd \<sigma>) of (pseudo_plan_node_id, ctx1) \<Rightarrow>
         (case int_mul (chunk_size state) num_receivers of
            Inl e \<Rightarrow> Inl e
          | Inr r1 \<Rightarrow>
              (case int_mul r1 num_receivers of
                 Inl e \<Rightarrow> Inl e
               | Inr rows \<Rightarrow>
                   let mem = (scast rows :: size_t) in
                   (case next_operator_id ctx1 of (source_op_id, ctx2) \<Rightarrow>
                    let local_exchange_source =
                          LocalExchangeSourceOperatorFactory source_op_id pseudo_plan_node_id mem 1;
                        local_exchange = BroadcastExchanger mem source_op_id;
                        store' = fst \<sigma> @ [local_exchange]
                    in
                    (case next_operator_id ctx2 of (sink_op_id, ctx3) \<Rightarrow>
                     let local_exchange_sink =
                           LocalExchangeSinkOperatorFactory sink_op_id pseudo_plan_node_id
                             (length (fst \<sigma>));
                         pred' = pred_operators @ [local_exchange_sink];
                         ctx4 = add_pipeline pred' ctx3
                     in Inr ([set_degree_of_parallelism (scast num_receivers) local_exchange_source],
                             pred', (store', ctx4))))))))"

text \<open>
  \<open>maybe_interpolate_local_shuffle_exchange\<close>. The number of partitions is the
  context's own degree of parallelism, a \<open>size_t\<close>, and the budget is the \<open>size_t\<close>
  product of it with the chunk size, which wraps around.
\<close>

definition maybe_interpolate_local_shuffle_exchange ::
  "RuntimeState \<Rightarrow> OpFactories \<Rightarrow> ExprContextPtr list \<Rightarrow> TPartitionType \<Rightarrow> builder_state
     \<Rightarrow> interpolation" where
  "maybe_interpolate_local_shuffle_exchange state pred_operators partition_expr_ctxs part_type \<sigma> =
     (case pred_operators of
        [] \<Rightarrow> Inl StructuralViolation
      | op0 # rest \<Rightarrow>
          if \<not> is_source op0 then Inl StructuralViolation
          else
            let shuffle_partitions_num = degree_of_parallelism (snd \<sigma>) in
            if shuffle_partitions_num \<le> 1 then Inr (pred_operators, pred_operators, \<sigma>)
            else
              (case source_degree_of_parallelism op0 of
                 Inl e \<Rightarrow> Inl e
               | Inr pred_dop \<Rightarrow>
                   (case next_pseudo_plan_node_id (snd \<sigma>) of (pseudo_plan_node_id, ctx1) \<Rightarrow>
                    let mem = shuffle_partitions_num * scast (chunk_size state) in
                    (case next_operator_id ctx1 of (source_op_id, ctx2) \<Rightarrow>
                     let local_shuffle_source =
                           LocalExchangeSourceOperatorFactory source_op_id pseudo_plan_node_id mem 1;
                         local_shuffle =
                           PartitionExchanger mem source_op_id part_type partition_expr_ctxs pred_dop;
                         store' = fst \<sigma> @ [local_shuffle]
                     in
                     (case next_operator_id ctx2 of (sink_op_id, ctx3) \<Rightarrow>
                      let local_shuffle_sink =
                            LocalExchangeSinkOperatorFactory sink_op_id pseudo_plan_node_id
                              (length (fst \<sigma>));
                          pred' = pred_operators @ [local_shuffle_sink];
                          ctx4 = add_pipeline pred' ctx3
                      in Inr ([set_degree_of_parallelism shuffle_partitions_num local_shuffle_source],
                              pred', (store', ctx4)))))))"

text \<open>
  \<open>maybe_gather_pipelines_to_one\<close>, its two loops first. The first adds up, in
  \<open>size_t\<close>, the parallelism of the head of every predecessor sequence times the chunk
  size; reading the head of an empty sequence, or a head that is no source factory,
  is a fault. The second appends a sink of the one exchanger, at address \<open>addr\<close>, to
  every predecessor sequence and seals the sequence.
\<close>

fun gather_row_count :: "RuntimeState \<Rightarrow> OpFactories list \<Rightarrow> size_t \<Rightarrow> fault + size_t" where
  "gather_row_count state [] max_row_count = Inr max_row_count"
| "gather_row_count state ([] # preds) max_row_count = Inl StructuralViolation"
| "gather_row_count state ((op0 # rest) # preds) max_row_count =
     (case source_degree_of_parallelism op0 of
        Inl e \<Rightarrow> Inl e
      | Inr dop \<Rightarrow>
          gather_row_count state preds (max_row_count + dop * scast (chunk_size state)))"

fun gather_append_sinks ::
  "32 word \<Rightarrow> nat \<Rightarrow> OpFactories list \<Rightarrow> PipelineBuilderContext
     \<Rightarrow> OpFactories list \<times> PipelineBuilderContext" where
  "gather_append_sinks pseudo_plan_node_id addr [] ctx = ([], ctx)"
| "gather_append_sinks pseudo_plan_node_id addr (pred_operators # preds) ctx =
     (case next_operator_id ctx of (sink_op_id, ctx1) \<Rightarrow>
      let pred' = pred_operators @ [LocalExchangeSinkOperatorFactory sink_op_id pseudo_plan_node_id addr];
          ctx2 = add_pipeline pred' ctx1
      in (case gather_append_sinks pseudo_plan_node_id addr preds ctx2 of (preds', ctx3) \<Rightarrow>
            (pred' # preds', ctx3)))"

definition maybe_gather_pipelines_to_one ::
  "RuntimeState \<Rightarrow> OpFactories list \<Rightarrow> builder_state
     \<Rightarrow> fault + (OpFactories \<times> OpFactories list \<times> builder_state)" where
  "maybe_gather_pipelines_to_one state pred_operators_list \<sigma> =
     (if length pred_operators_list = 1
      then Inr (hd pred_operators_list, pred_operators_list, \<sigma>)
      else
        (case gather_row_count state pred_operators_list 0 of
           Inl e \<Rightarrow> Inl e
         | Inr max_row_count \<Rightarrow>
             (case next_pseudo_plan_node_id (snd \<sigma>) of (pseudo_plan_node_id, ctx1) \<Rightarrow>
              (case next_operator_id ctx1 of (source_op_id, ctx2) \<Rightarrow>
               let local_exchange_source =
                     LocalExchangeSourceOperatorFactory source_op_id pseudo_plan_node_id max_row_count 1;
                   exchanger = PassthroughExchanger max_row_count source_op_id;
                   store' = fst \<sigma> @ [exchanger]
               in
               (case gather_append_sinks pseudo_plan_node_id (length (fst \<sigma>)) pred_operators_list ctx2
                of (preds', ctx3) \<Rightarrow>
                  Inr ([set_degree_of_parallelism (degree_of_parallelism ctx3) local_exchange_source],
                       preds', (store', ctx3)))))))"


text \<open>
  How the interpolations see a predecessor sequence: the condition of their DCHECK,
  \<open>!pred_operators.empty() && pred_operators[0]->is_source()\<close>, and the parallelism
  they read from its head (0 where that read is not defined).
\<close>

definition starts_with_source :: "OpFactories \<Rightarrow> bool" where
  "starts_with_source pred_ops = (case pred_ops of [] \<Rightarrow> False | op0 # rest \<Rightarrow> is_source op0)"

definition pred_dop :: "OpFactories \<Rightarrow> size_t" where
  "pred_dop pred_ops =
     (case pred_ops of
        [] \<Rightarrow> 0
      | op0 # rest \<Rightarrow> (case source_degree_of_parallelism op0 of Inl e \<Rightarrow> 0 | Inr d \<Rightarrow> d))"


section \<open>The driver counter\<close>

lemma of_nat_eq_1_size_t:
  assumes "m < 2 ^ 64"
  shows "((of_nat m :: size_t) = 1) = (m = 1)"
proof
  assume "(of_nat m :: size_t) = 1"
  then have "unat (of_nat m :: size_t) = unat (1 :: size_t)" by simp
  then show "m = 1" using assms by (simp add: unat_of_nat)
next
  assume "m = 1"
  then show "(of_nat m :: size_t) = 1" by simp
qed

lemma count_down_drivers_eq:
  "count_down_drivers c = (num_drivers c = 1, c\<lparr>num_drivers := num_drivers c - 1\<rparr>)"
  by (simp add: count_down_drivers_def fetch_sub_num_drivers_def)

lemma count_down_schedule_trace:
  "num_drivers c = of_nat m \<Longrightarrow> length sched \<le> m \<Longrightarrow> m < 2 ^ 64 \<Longrightarrow>
   fst (count_down_schedule sched c) =
     map (\<lambda>i. (sched ! i, of_nat (m - i), m - i = 1)) [0..<length sched]"
proof (induction sched arbitrary: c m)
  case Nil
  then show ?case by simp
next
  case (Cons t ts)
  let ?c1 = "c\<lparr>num_drivers := num_drivers c - 1\<rparr>"
  from Cons.prems have m1: "1 \<le> m" by simp
  have n1: "num_drivers ?c1 = of_nat (m - 1)"
    using Cons.prems(1) m1 by (simp add: of_nat_diff)
  have ih: "fst (count_down_schedule ts ?c1) =
     map (\<lambda>i. (ts ! i, of_nat (m - 1 - i), m - 1 - i = 1)) [0..<length ts]"
    using Cons.IH [OF n1] Cons.prems by simp
  have hd: "(num_drivers c = 1) = (m = 1)"
    using Cons.prems by (simp add: of_nat_eq_1_size_t)
  have "fst (count_down_schedule (t # ts) c) =
          (t, of_nat m, m = 1) # fst (count_down_schedule ts ?c1)"
    using Cons.prems(1) hd by (simp add: count_down_drivers_eq split: prod.splits)
  also have "\<dots> = map (\<lambda>i. ((t # ts) ! i, of_nat (m - i), m - i = 1)) [0..<length (t # ts)]"
    by (simp add: ih map_upt_Suc del: upt_Suc)
  finally show ?case .
qed


text \<open>
  Claim C1. Let \<open>set_drivers\<close> store a non-empty driver set of \<open>N\<close> drivers, and let
  \<open>N\<close> calls of \<open>count_down_drivers\<close> follow, by any threads in any order. The call
  at position \<open>i\<close> of the order observes the counter value \<open>N - i\<close>, and it returns true
  exactly when it is the last one, the one that observes 1: the results are \<open>N - 1\<close>
  times false and then once true, and a call returns true if and only if the value it
  observed is 1. (A vector holds fewer than \<open>2 ^ 64\<close> elements.)
\<close>

theorem C1_count_down_drivers_exactly_one:
  assumes "ds \<noteq> []" and "length ds < 2 ^ 64" and "length sched = length ds"
  shows "fst (count_down_schedule sched (set_drivers ds c)) =
           map (\<lambda>i. (sched ! i, of_nat (length ds - i), i = length ds - 1)) [0..<length ds]
         \<and> map (\<lambda>(t, observed, r). r) (fst (count_down_schedule sched (set_drivers ds c))) =
             replicate (length ds - 1) False @ [True]
         \<and> (\<forall>(t, observed, r) \<in> set (fst (count_down_schedule sched (set_drivers ds c))).
               r = (observed = 1))"
proof -
  let ?N = "length ds"
  let ?trace = "fst (count_down_schedule sched (set_drivers ds c))"
  have start: "num_drivers (set_drivers ds c) = of_nat ?N"
    by (simp add: set_drivers_def)
  have "?trace = map (\<lambda>i. (sched ! i, of_nat (?N - i), ?N - i = 1)) [0..<length sched]"
    using count_down_schedule_trace [OF start, of sched] assms(2,3) by simp
  also have "\<dots> = map (\<lambda>i. (sched ! i, of_nat (?N - i), i = ?N - 1)) [0..<?N]"
    using assms(3) by (auto intro!: map_cong)
  finally have trace: "?trace = map (\<lambda>i. (sched ! i, of_nat (?N - i), i = ?N - 1)) [0..<?N]" .
  have "map (\<lambda>(t, observed, r). r) ?trace = map (\<lambda>i. i = ?N - 1) [0..<?N]"
    by (simp add: trace comp_def)
  also have "\<dots> = map (\<lambda>i. i = ?N - 1) ([0..<?N - 1] @ [?N - 1])"
    using assms(1) by (cases ds) simp_all
  also have "\<dots> = replicate (?N - 1) False @ [True]"
  proof -
    have "map (\<lambda>i. i = ?N - 1) [0..<?N - 1] = map (\<lambda>i. False) [0..<?N - 1]"
      by (rule map_cong) auto
    then show ?thesis by (simp add: map_replicate_const)
  qed
  finally have results: "map (\<lambda>(t, observed, r). r) ?trace = replicate (?N - 1) False @ [True]" .
  have "\<forall>(t, observed, r) \<in> set ?trace. r = (observed = 1)"
  proof -
    have "\<And>i. i < ?N \<Longrightarrow> (i = ?N - 1) = ((of_nat (?N - i) :: size_t) = 1)"
    proof -
      fix i assume "i < ?N"
      then have "?N - i < 2 ^ 64" using assms(2) by simp
      then have "((of_nat (?N - i) :: size_t) = 1) = (?N - i = 1)"
        by (rule of_nat_eq_1_size_t)
      moreover have "(?N - i = 1) = (i = ?N - 1)"
        using \<open>i < ?N\<close> by arith
      ultimately show "(i = ?N - 1) = ((of_nat (?N - i) :: size_t) = 1)" by simp
    qed
    then show ?thesis by (auto simp: trace)
  qed
  with trace results show ?thesis by blast
qed

text \<open>Three drivers, finishing in the order 7, 5, 9: thread 9 gets the answer true.\<close>

theorem C1_count_down_drivers_witness:
  "[10, 11, 12 :: nat] \<noteq> [] \<and> length [10, 11, 12 :: nat] < 2 ^ 64
   \<and> length [7, 5, 9 :: nat] = length [10, 11, 12 :: nat]
   \<and> fst (count_down_schedule [7, 5, 9 :: nat] (set_drivers [10, 11, 12] (FragmentContext_ctor 0 nullptr))) =
       [(7, 3, False), (5, 2, False), (9, 1, True)]"
  using C1_count_down_drivers_exactly_one [of "[10, 11, 12]" "[7, 5, 9 :: nat]" "FragmentContext_ctor 0 nullptr"]
  by (simp add: upt_conv_Cons)


section \<open>The final-status latch and the cancel flag\<close>

lemma set_final_status_latched:
  "final_status_ptr c \<noteq> nullptr \<Longrightarrow> set_final_status s c = ([], c)"
  by (simp add: set_final_status_def)

lemma set_final_status_unlatched:
  "final_status_ptr c = nullptr \<Longrightarrow>
   set_final_status s c =
     (if is_cancelled (s_status c)
      then [Canceled_warning (query_id c) (fragment_instance_id c) (s_status c)] else [],
      c\<lparr>final_status_ptr := s_status_addr, s_status := s\<rparr>)"
  by (simp add: set_final_status_def compare_exchange_strong_def)

lemma final_status_after_latch:
  "final_status_ptr c = nullptr \<Longrightarrow> final_status (snd (set_final_status s c)) = Inr s"
  by (simp add: set_final_status_unlatched final_status_def)

lemma set_final_status_cancel_flag:
  "cancel_flag (snd (set_final_status s c)) = cancel_flag c"
  by (cases "final_status_ptr c = nullptr")
    (simp_all add: set_final_status_unlatched set_final_status_latched)

lemma set_final_status_ptr_latched:
  "final_status_ptr c \<noteq> nullptr \<Longrightarrow> final_status_ptr (snd (set_final_status s c)) \<noteq> nullptr"
  by (simp add: set_final_status_latched)

lemma set_final_status_all_latched:
  "final_status_ptr c \<noteq> nullptr \<Longrightarrow> set_final_status_all ss c = c"
  by (induction ss arbitrary: c) (simp_all add: set_final_status_latched)

lemma latch_one_shot:
  "final_status_ptr c = nullptr \<Longrightarrow>
   final_status (set_final_status_all (s # ss) c) = Inr s"
proof -
  assume n: "final_status_ptr c = nullptr"
  let ?c1 = "snd (set_final_status s c)"
  have p: "final_status_ptr ?c1 \<noteq> nullptr"
    using n by (simp add: set_final_status_unlatched)
  have "set_final_status_all (s # ss) c = ?c1"
    using set_final_status_all_latched [OF p] by simp
  then show ?thesis using n by (simp add: final_status_after_latch)
qed

lemma final_status_after_set_drivers: "final_status (set_drivers ds c) = Inr Status_OK"
  by (simp add: final_status_def set_drivers_def)

lemma final_status_ctor_null: "final_status (FragmentContext_ctor n0 nullptr) = Inr Status_OK"
  by (simp add: final_status_def FragmentContext_ctor_def)

text \<open>
  Claim C2. The latch itself is one-shot (\<open>latch_one_shot\<close>), and \<open>final_status()\<close>
  is OK after \<open>set_drivers\<close> and after a construction that leaves the slot null. The
  constructor does not make it so: it initialises \<open>_cancel_flag\<close> and nothing else. For
  a slot that starts out with any non-null content, \<open>final_status()\<close> right after
  construction dereferences that content instead of returning OK, and a \<open>cancel\<close> that
  arrives before \<open>set_drivers\<close> sets the flag but latches nothing, as
  \<open>set_final_status\<close> finds the slot occupied.
\<close>

theorem C2_constructor_leaves_slot_unset:
  "final_status (FragmentContext_ctor n0 (wild_ptr a)) = Inl InvalidPointer
   \<and> cancel s (FragmentContext_ctor n0 (wild_ptr a)) =
       ([], (FragmentContext_ctor n0 (wild_ptr a))\<lparr>cancel_flag := True\<rparr>)
   \<and> final_status (snd (cancel s (FragmentContext_ctor n0 (wild_ptr a)))) = Inl InvalidPointer"
  by (simp add: final_status_def cancel_def set_final_status_def FragmentContext_ctor_def)

lemma cancel_flag_set: "cancel_flag (snd (cancel s c))"
  by (simp add: cancel_def set_final_status_cancel_flag)

lemma apply_op_keeps_cancel_flag: "cancel_flag c \<Longrightarrow> cancel_flag (apply_op x c)"
  by (cases x)
    (simp_all add: set_query_id_def set_fragment_instance_id_def set_drivers_def
      count_down_drivers_def fetch_sub_num_drivers_def set_final_status_cancel_flag
      cancel_flag_set finish_def)

lemma apply_ops_keep_cancel_flag: "cancel_flag c \<Longrightarrow> cancel_flag (apply_ops xs c)"
  by (induction xs arbitrary: c) (simp_all add: apply_op_keeps_cancel_flag)

lemma apply_ops_append: "apply_ops (xs @ ys) c = apply_ops ys (apply_ops xs c)"
  by (induction xs arbitrary: c) simp_all

lemma cancel_latched:
  "final_status_ptr c \<noteq> nullptr \<Longrightarrow> cancel s c = ([], c\<lparr>cancel_flag := True\<rparr>)"
  by (simp add: cancel_def set_final_status_latched)

text \<open>
  Claim C9. \<open>cancel\<close> sets the flag from any state, latched or not, and \<open>finish\<close> is
  \<open>cancel(OK)\<close>. Whatever calls come before and after a \<open>cancel\<close> or a \<open>finish\<close>,
  \<open>is_canceled()\<close> is true at the end; no call clears a flag that is set. A second
  \<open>cancel\<close> leaves the flag as the first one set it. A \<open>cancel\<close> on a context whose
  final status is already latched changes neither the slot nor the stored status, so
  \<open>final_status()\<close> answers as before, and still sets the flag.
\<close>

theorem C9_cancel_flag_monotone:
  "is_canceled (snd (cancel s c))
   \<and> finish c = cancel Status_OK c
   \<and> is_canceled (apply_ops (before @ Cancel s # after) c)
   \<and> is_canceled (apply_ops (before @ Finish # after) c)
   \<and> (is_canceled c \<longrightarrow> is_canceled (apply_ops after c))
   \<and> cancel_flag (snd (cancel s2 (snd (cancel s c)))) = cancel_flag (snd (cancel s c))
   \<and> (final_status_ptr c \<noteq> nullptr \<longrightarrow>
        final_status (snd (cancel s c)) = final_status c
        \<and> final_status_ptr (snd (cancel s c)) = final_status_ptr c
        \<and> s_status (snd (cancel s c)) = s_status c
        \<and> is_canceled (snd (cancel s c)))"
proof -
  have a: "is_canceled (apply_ops (before @ Cancel s # after) c)"
    by (simp add: is_canceled_def apply_ops_append apply_ops_keep_cancel_flag cancel_flag_set)
  have b: "is_canceled (apply_ops (before @ Finish # after) c)"
    by (simp add: is_canceled_def apply_ops_append apply_ops_keep_cancel_flag cancel_flag_set
        finish_def)
  have d: "final_status_ptr c \<noteq> nullptr \<longrightarrow>
        final_status (snd (cancel s c)) = final_status c
        \<and> final_status_ptr (snd (cancel s c)) = final_status_ptr c
        \<and> s_status (snd (cancel s c)) = s_status c
        \<and> is_canceled (snd (cancel s c))"
    by (simp add: cancel_latched final_status_def is_canceled_def split: status_ptr.splits)
  show ?thesis
    using a b d
    by (simp add: is_canceled_def cancel_flag_set finish_def apply_ops_keep_cancel_flag)
qed


text \<open>
  A context that fails with an internal error and is cancelled afterwards keeps the
  internal error and is canceled; a cancelled context stays canceled through
  \<open>set_drivers\<close>, \<open>count_down_drivers\<close> and \<open>set_final_status\<close>.
\<close>

theorem C9_cancel_flag_witness:
  "final_status_ptr (apply_ops [SetDrivers [1, 2], SetFinalStatus (Status INTERNAL_ERROR ''boom'')]
       (FragmentContext_ctor 0 nullptr)) \<noteq> nullptr
   \<and> is_canceled (apply_ops [Cancel (Status CANCELLED ''stop'')] (FragmentContext_ctor 0 nullptr))
   \<and> is_canceled (apply_ops [Cancel (Status CANCELLED ''stop''), SetDrivers [3], CountDownDrivers,
         SetFinalStatus Status_OK] (FragmentContext_ctor 0 nullptr))
   \<and> final_status (snd (cancel (Status CANCELLED ''late'')
         (apply_ops [SetDrivers [1, 2], SetFinalStatus (Status INTERNAL_ERROR ''boom'')]
            (FragmentContext_ctor 0 nullptr)))) = Inr (Status INTERNAL_ERROR ''boom'')
   \<and> is_canceled (snd (cancel (Status CANCELLED ''late'')
         (apply_ops [SetDrivers [1, 2], SetFinalStatus (Status INTERNAL_ERROR ''boom'')]
            (FragmentContext_ctor 0 nullptr))))"
proof -
  let ?c = "apply_ops [SetDrivers [1, 2], SetFinalStatus (Status INTERNAL_ERROR ''boom'')]
       (FragmentContext_ctor 0 nullptr)"
  let ?k = "apply_ops [Cancel (Status CANCELLED ''stop'')] (FragmentContext_ctor 0 nullptr)"
  have latched: "final_status_ptr ?c \<noteq> nullptr"
    by (simp add: set_drivers_def set_final_status_unlatched)
  have fs: "final_status ?c = Inr (Status INTERNAL_ERROR ''boom'')"
    by (simp add: set_drivers_def set_final_status_unlatched final_status_def)
  have k: "is_canceled ?k"
    using C9_cancel_flag_monotone [of "Status CANCELLED ''stop''" "FragmentContext_ctor 0 nullptr"]
    by simp
  have after: "is_canceled (apply_ops [SetDrivers [3], CountDownDrivers, SetFinalStatus Status_OK] ?k)"
    using C9_cancel_flag_monotone [of _ ?k _ "[SetDrivers [3], CountDownDrivers, SetFinalStatus Status_OK]"] k
    by blast
  have late: "final_status (snd (cancel (Status CANCELLED ''late'') ?c)) = final_status ?c
      \<and> is_canceled (snd (cancel (Status CANCELLED ''late'') ?c))"
    using C9_cancel_flag_monotone [of "Status CANCELLED ''late''" ?c] latched by blast
  from latched k after late fs show ?thesis by simp
qed

lemma set_final_status_log:
  "final_status_ptr c = nullptr \<Longrightarrow>
   fst (set_final_status s c) =
     (if is_cancelled (s_status c)
      then [Canceled_warning (query_id c) (fragment_instance_id c) (s_status c)] else [])"
  by (simp add: set_final_status_unlatched)

text \<open>
  Claim C5. The warning is written before the assignment \<open>_s_status = status\<close>, so
  both its condition and its reason are the content \<open>_s_status\<close> had before the call
  (\<open>set_final_status_log\<close>), not the status that wins. On a fresh context a
  cancellation wins the latch and nothing is logged. On a second attempt, after an
  earlier one was cancelled and \<open>set_drivers\<close> has cleared the latch, an internal error
  wins the latch and the warning reports the cancellation of the first attempt; and
  when a second cancellation wins instead, the warning still reports the first.
\<close>

theorem C5_warning_reads_status_before_store:
  "set_final_status (Status CANCELLED ''user cancel'') (set_drivers [1, 2] (FragmentContext_ctor 0 nullptr)) =
     ([], (set_drivers [1, 2] (FragmentContext_ctor 0 nullptr))
            \<lparr>final_status_ptr := s_status_addr, s_status := Status CANCELLED ''user cancel''\<rparr>)
   \<and> fst (set_final_status (Status INTERNAL_ERROR ''second attempt'')
        (apply_ops [SetDrivers [1, 2], SetFinalStatus (Status CANCELLED ''first attempt''), SetDrivers [3]]
           (FragmentContext_ctor 0 nullptr))) =
       [Canceled_warning (0, 0) (0, 0) (Status CANCELLED ''first attempt'')]
   \<and> final_status (snd (set_final_status (Status INTERNAL_ERROR ''second attempt'')
        (apply_ops [SetDrivers [1, 2], SetFinalStatus (Status CANCELLED ''first attempt''), SetDrivers [3]]
           (FragmentContext_ctor 0 nullptr)))) = Inr (Status INTERNAL_ERROR ''second attempt'')
   \<and> set_final_status (Status CANCELLED ''second cancel'')
        (apply_ops [SetDrivers [1, 2], SetFinalStatus (Status CANCELLED ''first attempt''), SetDrivers [3]]
           (FragmentContext_ctor 0 nullptr)) =
       ([Canceled_warning (0, 0) (0, 0) (Status CANCELLED ''first attempt'')],
        (apply_ops [SetDrivers [1, 2], SetFinalStatus (Status CANCELLED ''first attempt''), SetDrivers [3]]
           (FragmentContext_ctor 0 nullptr))
          \<lparr>final_status_ptr := s_status_addr, s_status := Status CANCELLED ''second cancel''\<rparr>)"
  by (simp add: set_final_status_unlatched set_drivers_def FragmentContext_ctor_def
      is_cancelled_def Status_OK_def final_status_def)

section \<open>The registry\<close>

lemma set_value_pending: "\<not> finish_promise c \<Longrightarrow> set_value c = Inr (c\<lparr>finish_promise := True\<rparr>)"
  by (simp add: set_value_def)

lemma register_ctx_present: "fragment_contexts m fid \<noteq> None \<Longrightarrow> register_ctx fid p m = m"
  by (simp add: register_ctx_def)

lemma register_ctx_absent:
  "fragment_contexts m fid = None \<Longrightarrow>
   register_ctx fid p m = m\<lparr>fragment_contexts := (fragment_contexts m)(fid \<mapsto> p)\<rparr>"
  by (simp add: register_ctx_def)

lemma register_ctx_registers: "fragment_contexts (register_ctx fid p m) fid \<noteq> None"
  by (simp add: register_ctx_def)

lemma unregister_absent: "fragment_contexts m fid = None \<Longrightarrow> unregister fid m = Inr m"
  by (simp add: unregister_def)

lemma unregister_present:
  "fragment_contexts m fid = Some p \<Longrightarrow> objects m p = Some c \<Longrightarrow> \<not> finish_promise c \<Longrightarrow>
   unregister fid m =
     Inr (m\<lparr>objects := (objects m)(p \<mapsto> c\<lparr>finish_promise := True\<rparr>),
            fragment_contexts := (fragment_contexts m)(fid := None)\<rparr>)"
  by (simp add: unregister_def set_value_pending)

lemma unregister_removes: "unregister fid m = Inr m' \<Longrightarrow> fragment_contexts m' fid = None"
  by (auto simp: unregister_def split: option.splits sum.splits)

text \<open>
  Claim C10. \<open>register_ctx\<close> on an id that is present returns the registry as it was,
  so of two registrations of one id the first stays. \<open>unregister\<close> on an id that is
  present, whose context has its completion signal still pending, releases the signal
  by one \<open>set_value\<close>, removes the entry, and changes nothing else. \<open>unregister\<close> on
  an absent id returns the registry as it was, without a fault; in particular a second
  \<open>unregister\<close> of the same id does. The registry is a map: an id has at most one
  context.
\<close>

theorem C10_registration_races_idempotent:
  "(fragment_contexts m fid \<noteq> None \<longrightarrow> register_ctx fid p m = m)
   \<and> register_ctx fid p2 (register_ctx fid p m) = register_ctx fid p m
   \<and> (fragment_contexts m fid = Some q \<and> objects m q = Some c \<and> \<not> finish_promise c \<longrightarrow>
        set_value c = Inr (c\<lparr>finish_promise := True\<rparr>)
        \<and> unregister fid m =
            Inr (m\<lparr>objects := (objects m)(q \<mapsto> c\<lparr>finish_promise := True\<rparr>),
                   fragment_contexts := (fragment_contexts m)(fid := None)\<rparr>))
   \<and> (fragment_contexts m fid = None \<longrightarrow> unregister fid m = Inr m)
   \<and> (unregister fid m = Inr m' \<longrightarrow> get fid m' = None \<and> unregister fid m' = Inr m')"
proof -
  have twice: "register_ctx fid p2 (register_ctx fid p m) = register_ctx fid p m"
    by (rule register_ctx_present) (rule register_ctx_registers)
  have again: "unregister fid m = Inr m' \<longrightarrow> get fid m' = None \<and> unregister fid m' = Inr m'"
    by (auto simp: get_def dest: unregister_removes intro: unregister_absent)
  show ?thesis
    using twice again
    by (simp add: register_ctx_present unregister_absent unregister_present set_value_pending)
qed


text \<open>
  One context registered under the id (1, 2): a second registration is dropped, the
  first \<open>unregister\<close> releases the signal and empties the registry, the second changes
  nothing.
\<close>

theorem C10_registration_races_witness:
  "fragment_contexts
      \<lparr>fragment_contexts = [(1, 2) \<mapsto> 0], objects = [0 \<mapsto> FragmentContext_ctor 0 nullptr]\<rparr> (1, 2) = Some 0
   \<and> objects
      \<lparr>fragment_contexts = [(1, 2) \<mapsto> 0], objects = [0 \<mapsto> FragmentContext_ctor 0 nullptr]\<rparr> 0 =
        Some (FragmentContext_ctor 0 nullptr)
   \<and> \<not> finish_promise (FragmentContext_ctor 0 nullptr)
   \<and> register_ctx (1, 2) 7
        \<lparr>fragment_contexts = [(1, 2) \<mapsto> 0], objects = [0 \<mapsto> FragmentContext_ctor 0 nullptr]\<rparr> =
        \<lparr>fragment_contexts = [(1, 2) \<mapsto> 0], objects = [0 \<mapsto> FragmentContext_ctor 0 nullptr]\<rparr>
   \<and> unregister (1, 2)
        \<lparr>fragment_contexts = [(1, 2) \<mapsto> 0], objects = [0 \<mapsto> FragmentContext_ctor 0 nullptr]\<rparr> =
        Inr \<lparr>fragment_contexts = Map.empty,
             objects = [0 \<mapsto> (FragmentContext_ctor 0 nullptr)\<lparr>finish_promise := True\<rparr>]\<rparr>
   \<and> unregister (1, 2)
        \<lparr>fragment_contexts = Map.empty,
         objects = [0 \<mapsto> (FragmentContext_ctor 0 nullptr)\<lparr>finish_promise := True\<rparr>]\<rparr> =
        Inr \<lparr>fragment_contexts = Map.empty,
             objects = [0 \<mapsto> (FragmentContext_ctor 0 nullptr)\<lparr>finish_promise := True\<rparr>]\<rparr>"
proof -
  let ?c = "FragmentContext_ctor 0 nullptr"
  let ?m = "\<lparr>fragment_contexts = [(1, 2) \<mapsto> 0], objects = [0 \<mapsto> ?c]\<rparr>"
  let ?m' = "\<lparr>fragment_contexts = Map.empty, objects = [0 \<mapsto> ?c\<lparr>finish_promise := True\<rparr>]\<rparr>"
  have present: "fragment_contexts ?m (1, 2) = Some 0" by simp
  have obj: "objects ?m 0 = Some ?c" by simp
  have pending: "\<not> finish_promise ?c" by (simp add: FragmentContext_ctor_def)
  have reg: "register_ctx (1, 2) 7 ?m = ?m"
    using C10_registration_races_idempotent [of ?m "(1, 2)" 7] present by simp
  have unreg: "unregister (1, 2) ?m = Inr ?m'"
    using C10_registration_races_idempotent [of ?m "(1, 2)" _ _ 0 ?c] present obj pending by simp
  have again: "unregister (1, 2) ?m' = Inr ?m'"
    using C10_registration_races_idempotent [of ?m "(1, 2)" _ _ _ _ ?m'] unreg by blast
  from present obj pending reg unreg again show ?thesis by blast
qed


section \<open>Arithmetic of \<open>int\<close> and \<open>size_t\<close>\<close>

lemma uint_scast_nonneg:
  assumes "0 \<le> sint (w :: int32)"
  shows "uint (scast w :: size_t) = sint w"
proof -
  have "sint w < 2 ^ 31" using sint_lt [of w] by simp
  then have lt: "sint w < 2 ^ 64" by simp
  have "(scast w :: size_t) = word_of_int (sint w)" by simp
  then have "uint (scast w :: size_t) = sint w mod 2 ^ 64"
    by (simp only: uint_word_of_int) simp
  with assms lt show ?thesis by simp
qed

lemma uint_scast_neg:
  assumes "sint (w :: int32) < 0"
  shows "uint (scast w :: size_t) = sint w + 2 ^ 64"
proof -
  have ge: "- (2 ^ 31) \<le> sint w" using sint_ge [of w] by simp
  have "(scast w :: size_t) = word_of_int (sint w)" by simp
  then have "uint (scast w :: size_t) = sint w mod 2 ^ 64"
    by (simp only: uint_word_of_int) simp
  also have "\<dots> = (sint w + 2 ^ 64) mod 2 ^ 64" by simp
  also have "\<dots> = sint w + 2 ^ 64" using assms ge by (intro mod_pos_pos_trivial) simp_all
  finally show ?thesis .
qed

lemma dop_eq_scast_iff:
  assumes "uint (dop :: size_t) < 2 ^ 31"
  shows "(dop = scast (nr :: int32)) = (uint dop = sint nr)"
proof
  assume eq: "dop = scast nr"
  show "uint dop = sint nr"
  proof (cases "0 \<le> sint nr")
    case True
    then show ?thesis using eq by (simp add: uint_scast_nonneg)
  next
    case False
    then have "uint dop = sint nr + 2 ^ 64" using eq by (simp add: uint_scast_neg)
    moreover have "- (2 ^ 31) \<le> sint nr" using sint_ge [of nr] by simp
    ultimately show ?thesis using assms by simp
  qed
next
  assume eq: "uint dop = sint nr"
  have "dop = word_of_int (uint dop)" by simp
  also have "\<dots> = word_of_int (sint nr)" using eq by simp
  also have "\<dots> = scast nr" by simp
  finally show "dop = scast nr" .
qed

lemma sint_ucast_small:
  assumes "uint (dop :: size_t) < 2 ^ 31"
  shows "sint (ucast dop :: int32) = uint dop"
proof -
  have "sint (ucast dop :: int32) = signed_take_bit 31 (uint dop)"
    by (simp add: signed_ucast_eq)
  also have "\<dots> = uint dop"
  proof (rule signed_take_bit_int_eq_self)
    have "- (2 ^ 31) \<le> (0 :: int)" by simp
    also have "0 \<le> uint dop" by simp
    finally show "- (2 ^ 31) \<le> uint dop" .
    show "uint dop < 2 ^ 31" using assms .
  qed
  finally show ?thesis .
qed

lemma sint_int_max: "sint (int_max a b) = max (sint a) (sint b)"
  by (simp add: int_max_def max_def)

lemma sint_mult_in_range:
  assumes "- (2 ^ 31) \<le> sint (a :: int32) * sint (b :: int32)" and "sint a * sint b < 2 ^ 31"
  shows "sint (a * b) = sint a * sint b"
proof -
  have "a * b = word_of_int (sint a) * word_of_int (sint b)" by simp
  also have "\<dots> = word_of_int (sint a * sint b)" by simp
  finally have "sint (a * b) = signed_take_bit 31 (sint a * sint b)"
    by (simp only: sint_sbintrunc') simp
  also have "\<dots> = sint a * sint b"
    using assms by (intro signed_take_bit_int_eq_self) simp_all
  finally show ?thesis .
qed

lemma int_mul_in_range:
  assumes "- (2 ^ 31) \<le> sint a * sint b" and "sint a * sint b < 2 ^ 31"
  shows "int_mul a b = Inr (a * b)" and "sint (a * b) = sint a * sint b"
  using assms by (simp_all add: int_mul_def sint_mult_in_range)

section \<open>Exchange interpolation\<close>

lemma source_dop_is_source: "source_degree_of_parallelism op0 = Inr d \<Longrightarrow> is_source op0"
  by (cases op0) simp_all

lemma passthrough_same_dop:
  assumes "source_degree_of_parallelism op0 = Inr dop" and "dop = scast num_receivers"
  shows "maybe_interpolate_local_passthrough_exchange state (op0 # rest) num_receivers \<sigma> =
           Inr (op0 # rest, op0 # rest, \<sigma>)"
  using assms source_dop_is_source [OF assms(1)]
  by (simp add: maybe_interpolate_local_passthrough_exchange_def)

lemma passthrough_other_dop:
  assumes "source_degree_of_parallelism op0 = Inr dop" and "dop \<noteq> scast num_receivers"
    and "int_mul (chunk_size state) (int_max num_receivers (ucast dop)) = Inr rows"
  shows "maybe_interpolate_local_passthrough_exchange state (op0 # rest) num_receivers (store, ctx) =
           Inr ([LocalExchangeSourceOperatorFactory (operator_id_counter ctx)
                   (pseudo_plan_node_id_counter ctx) (scast rows) (scast num_receivers)],
                op0 # rest @ [LocalExchangeSinkOperatorFactory (operator_id_counter ctx + 1)
                   (pseudo_plan_node_id_counter ctx) (length store)],
                (store @ [PassthroughExchanger (scast rows) (operator_id_counter ctx)],
                 ctx\<lparr>pipelines := pipelines ctx @
                        [Pipeline (op0 # rest @ [LocalExchangeSinkOperatorFactory
                           (operator_id_counter ctx + 1) (pseudo_plan_node_id_counter ctx) (length store)])],
                     operator_id_counter := operator_id_counter ctx + 2,
                     pseudo_plan_node_id_counter := pseudo_plan_node_id_counter ctx - 1\<rparr>))"
  using assms source_dop_is_source [OF assms(1)]
  by (simp add: maybe_interpolate_local_passthrough_exchange_def next_pseudo_plan_node_id_def
      next_operator_id_def add_pipeline_def Let_def)


lemma broadcast_one_receiver:
  "maybe_interpolate_local_broadcast_exchange state pred_operators 1 \<sigma> =
     maybe_interpolate_local_passthrough_exchange state pred_operators 1 \<sigma>"
  by (simp add: maybe_interpolate_local_broadcast_exchange_def
      maybe_interpolate_local_passthrough_exchange_1_def)

lemma broadcast_many_receivers:
  assumes "num_receivers \<noteq> 1"
    and "int_mul (chunk_size state) num_receivers = Inr r1"
    and "int_mul r1 num_receivers = Inr rows"
  shows "maybe_interpolate_local_broadcast_exchange state pred_operators num_receivers (store, ctx) =
           Inr ([LocalExchangeSourceOperatorFactory (operator_id_counter ctx)
                   (pseudo_plan_node_id_counter ctx) (scast rows) (scast num_receivers)],
                pred_operators @ [LocalExchangeSinkOperatorFactory (operator_id_counter ctx + 1)
                   (pseudo_plan_node_id_counter ctx) (length store)],
                (store @ [BroadcastExchanger (scast rows) (operator_id_counter ctx)],
                 ctx\<lparr>pipelines := pipelines ctx @
                        [Pipeline (pred_operators @ [LocalExchangeSinkOperatorFactory
                           (operator_id_counter ctx + 1) (pseudo_plan_node_id_counter ctx) (length store)])],
                     operator_id_counter := operator_id_counter ctx + 2,
                     pseudo_plan_node_id_counter := pseudo_plan_node_id_counter ctx - 1\<rparr>))"
  using assms
  by (simp add: maybe_interpolate_local_broadcast_exchange_def next_pseudo_plan_node_id_def
      next_operator_id_def add_pipeline_def Let_def)

text \<open>
  Claim C3, as the code has it. For a sequence that begins with a source factory whose
  degree of parallelism equals the requested receiver count, passthrough interpolation
  returns the sequence as it is and leaves the exchanger store and the context
  untouched: no exchange is created, no pipeline sealed. Broadcast interpolation does
  the same when the receiver count is 1.
\<close>

theorem C3_same_parallelism_returns_input:
  assumes "pred_operators = op0 # rest"
    and "source_degree_of_parallelism op0 = Inr dop"
    and "uint dop = sint num_receivers"
  shows "maybe_interpolate_local_passthrough_exchange state pred_operators num_receivers \<sigma> =
           Inr (pred_operators, pred_operators, \<sigma>)
         \<and> (num_receivers = 1 \<longrightarrow>
              maybe_interpolate_local_broadcast_exchange state pred_operators num_receivers \<sigma> =
                Inr (pred_operators, pred_operators, \<sigma>))"
proof -
  have "dop = word_of_int (uint dop)" by simp
  also have "\<dots> = scast num_receivers" using assms(3) by simp
  finally have same: "dop = scast num_receivers" .
  have pass: "maybe_interpolate_local_passthrough_exchange state pred_operators num_receivers \<sigma> =
           Inr (pred_operators, pred_operators, \<sigma>)"
    using passthrough_same_dop [OF assms(2) same] assms(1) by simp
  then show ?thesis by (auto simp: broadcast_one_receiver)
qed

text \<open>
  A source of parallelism 1 and one receiver, through both interpolations.
\<close>

theorem C3_same_parallelism_witness:
  "[SourceOperatorFactory 0 0 1, OperatorFactory 1 0] = SourceOperatorFactory 0 0 1 # [OperatorFactory 1 0]
   \<and> source_degree_of_parallelism (SourceOperatorFactory 0 0 1) = Inr 1
   \<and> uint (1 :: size_t) = sint (1 :: int32)
   \<and> maybe_interpolate_local_passthrough_exchange \<lparr>chunk_size = 4096\<rparr>
        [SourceOperatorFactory 0 0 1, OperatorFactory 1 0] 1
        ([], \<lparr>pipelines = [], operator_id_counter = 2, pseudo_plan_node_id_counter = 100,
               degree_of_parallelism = 1\<rparr>) =
       Inr ([SourceOperatorFactory 0 0 1, OperatorFactory 1 0],
            [SourceOperatorFactory 0 0 1, OperatorFactory 1 0],
            ([], \<lparr>pipelines = [], operator_id_counter = 2, pseudo_plan_node_id_counter = 100,
                   degree_of_parallelism = 1\<rparr>))
   \<and> maybe_interpolate_local_broadcast_exchange \<lparr>chunk_size = 4096\<rparr>
        [SourceOperatorFactory 0 0 1, OperatorFactory 1 0] 1
        ([], \<lparr>pipelines = [], operator_id_counter = 2, pseudo_plan_node_id_counter = 100,
               degree_of_parallelism = 1\<rparr>) =
       Inr ([SourceOperatorFactory 0 0 1, OperatorFactory 1 0],
            [SourceOperatorFactory 0 0 1, OperatorFactory 1 0],
            ([], \<lparr>pipelines = [], operator_id_counter = 2, pseudo_plan_node_id_counter = 100,
                   degree_of_parallelism = 1\<rparr>))"
  using C3_same_parallelism_returns_input
    [of "[SourceOperatorFactory 0 0 1, OperatorFactory 1 0]" "SourceOperatorFactory 0 0 1"
        "[OperatorFactory 1 0]" 1 1 "\<lparr>chunk_size = 4096\<rparr>"
        "([], \<lparr>pipelines = [], operator_id_counter = 2, pseudo_plan_node_id_counter = 100,
               degree_of_parallelism = 1\<rparr>)"]
  by simp

text \<open>
  Claim C3 as stated fails for broadcast interpolation: with a source of parallelism 2
  and 2 receivers the parallelism equals the receiver count, and the call still
  allocates a broadcast exchanger, appends a sink, seals the predecessor and returns
  the new exchange source. Only the case of one receiver looks at the predecessor.
\<close>

theorem C3_broadcast_counterexample:
  "source_degree_of_parallelism (SourceOperatorFactory 0 0 2) = Inr 2
   \<and> uint (2 :: size_t) = sint (2 :: int32)
   \<and> maybe_interpolate_local_broadcast_exchange \<lparr>chunk_size = 4096\<rparr>
        [SourceOperatorFactory 0 0 2] 2
        ([], \<lparr>pipelines = [], operator_id_counter = 1, pseudo_plan_node_id_counter = 100,
               degree_of_parallelism = 2\<rparr>) =
       Inr ([LocalExchangeSourceOperatorFactory 1 100 16384 2],
            [SourceOperatorFactory 0 0 2, LocalExchangeSinkOperatorFactory 2 100 0],
            ([BroadcastExchanger 16384 1],
             \<lparr>pipelines = [Pipeline [SourceOperatorFactory 0 0 2, LocalExchangeSinkOperatorFactory 2 100 0]],
              operator_id_counter = 3, pseudo_plan_node_id_counter = 99,
              degree_of_parallelism = 2\<rparr>))
   \<and> maybe_interpolate_local_broadcast_exchange \<lparr>chunk_size = 4096\<rparr>
        [SourceOperatorFactory 0 0 2] 2
        ([], \<lparr>pipelines = [], operator_id_counter = 1, pseudo_plan_node_id_counter = 100,
               degree_of_parallelism = 2\<rparr>) \<noteq>
       Inr ([SourceOperatorFactory 0 0 2], [SourceOperatorFactory 0 0 2],
            ([], \<lparr>pipelines = [], operator_id_counter = 1, pseudo_plan_node_id_counter = 100,
                   degree_of_parallelism = 2\<rparr>))"
  by (simp add: maybe_interpolate_local_broadcast_exchange_def next_pseudo_plan_node_id_def
      next_operator_id_def add_pipeline_def Let_def int_mul_def)


text \<open>
  Claim C4. Let the sequence begin with a source factory whose degree of parallelism
  differs from \<open>num_receivers\<close>, with the parallelism in the range of \<open>int\<close>, a receiver
  count and a chunk size that are not negative, and the product of the chunk size with
  the larger of the two within \<open>int\<close> (outside of it the multiplication has no defined
  result). Then passthrough interpolation allocates exactly one exchanger, a
  PassthroughExchanger whose budget is chunk size times \<open>max(num_receivers, dop)\<close>;
  the predecessor sequence gets one sink of that exchanger appended and is sealed as
  one pipeline, the last of the result list; and the sequence returned holds one
  operator, the exchange source, with parallelism \<open>num_receivers\<close>.
\<close>

theorem C4_passthrough_inserts_exchange:
  assumes "pred_operators = op0 # rest"
    and "source_degree_of_parallelism op0 = Inr dop"
    and "uint dop \<noteq> sint num_receivers"
    and "uint dop < 2 ^ 31"
    and "0 \<le> sint num_receivers"
    and "0 \<le> sint (chunk_size state)"
    and "sint (chunk_size state) * max (sint num_receivers) (uint dop) < 2 ^ 31"
  shows "\<exists>mem dop'.
           maybe_interpolate_local_passthrough_exchange state pred_operators num_receivers (store, ctx) =
             Inr ([LocalExchangeSourceOperatorFactory (operator_id_counter ctx)
                     (pseudo_plan_node_id_counter ctx) mem dop'],
                  pred_operators @ [LocalExchangeSinkOperatorFactory (operator_id_counter ctx + 1)
                     (pseudo_plan_node_id_counter ctx) (length store)],
                  (store @ [PassthroughExchanger mem (operator_id_counter ctx)],
                   ctx\<lparr>pipelines := pipelines ctx @
                          [Pipeline (pred_operators @ [LocalExchangeSinkOperatorFactory
                             (operator_id_counter ctx + 1) (pseudo_plan_node_id_counter ctx) (length store)])],
                       operator_id_counter := operator_id_counter ctx + 2,
                       pseudo_plan_node_id_counter := pseudo_plan_node_id_counter ctx - 1\<rparr>))
           \<and> uint mem = sint (chunk_size state) * max (sint num_receivers) (uint dop)
           \<and> uint dop' = sint num_receivers"
proof -
  let ?buffer_size = "int_max num_receivers (ucast dop)"
  let ?rows = "chunk_size state * ?buffer_size"
  have differ: "dop \<noteq> scast num_receivers"
    using assms(3,4) by (simp add: dop_eq_scast_iff)
  have buf: "sint ?buffer_size = max (sint num_receivers) (uint dop)"
    using assms(4) by (simp add: sint_int_max sint_ucast_small)
  have nonneg: "0 \<le> sint (chunk_size state) * sint ?buffer_size"
    using assms(5,6) by (simp add: buf)
  have lo: "- (2 ^ 31) \<le> sint (chunk_size state) * sint ?buffer_size"
  proof -
    have "- (2 ^ 31) \<le> (0 :: int)" by simp
    also note nonneg
    finally show ?thesis .
  qed
  have hi: "sint (chunk_size state) * sint ?buffer_size < 2 ^ 31"
    using assms(7) by (simp only: buf)
  have mul: "int_mul (chunk_size state) ?buffer_size = Inr ?rows"
    and rows: "sint ?rows = sint (chunk_size state) * sint ?buffer_size"
    using int_mul_in_range [OF lo hi] by simp_all
  have mem: "uint (scast ?rows :: size_t) = sint (chunk_size state) * max (sint num_receivers) (uint dop)"
    using nonneg by (simp add: uint_scast_nonneg rows buf)
  have dop': "uint (scast num_receivers :: size_t) = sint num_receivers"
    using assms(5) by (rule uint_scast_nonneg)
  show ?thesis
    using passthrough_other_dop [OF assms(2) differ mul, of rest store ctx] mem dop' assms(1)
    by (intro exI [of _ "scast ?rows"] exI [of _ "scast num_receivers"]) simp
qed

text \<open>
  Parallelism 4 feeding one receiver, with 4096 rows per chunk: one passthrough
  exchanger of budget \<open>4096 * max 1 4 = 16384\<close>, and one exchange source of
  parallelism 1 returned.
\<close>

theorem C4_passthrough_four_to_one_witness:
  "[SourceOperatorFactory 0 7 4, OperatorFactory 1 7] = SourceOperatorFactory 0 7 4 # [OperatorFactory 1 7]
   \<and> source_degree_of_parallelism (SourceOperatorFactory 0 7 4) = Inr 4
   \<and> uint (4 :: size_t) \<noteq> sint (1 :: int32)
   \<and> uint (4 :: size_t) < 2 ^ 31
   \<and> 0 \<le> sint (1 :: int32)
   \<and> 0 \<le> sint (chunk_size \<lparr>chunk_size = 4096\<rparr>)
   \<and> sint (chunk_size \<lparr>chunk_size = 4096\<rparr>) * max (sint (1 :: int32)) (uint (4 :: size_t)) < 2 ^ 31
   \<and> maybe_interpolate_local_passthrough_exchange \<lparr>chunk_size = 4096\<rparr>
        [SourceOperatorFactory 0 7 4, OperatorFactory 1 7] 1
        ([], \<lparr>pipelines = [], operator_id_counter = 2, pseudo_plan_node_id_counter = 100,
               degree_of_parallelism = 4\<rparr>) =
       Inr ([LocalExchangeSourceOperatorFactory 2 100 16384 1],
            [SourceOperatorFactory 0 7 4, OperatorFactory 1 7, LocalExchangeSinkOperatorFactory 3 100 0],
            ([PassthroughExchanger 16384 2],
             \<lparr>pipelines = [Pipeline [SourceOperatorFactory 0 7 4, OperatorFactory 1 7,
                                      LocalExchangeSinkOperatorFactory 3 100 0]],
              operator_id_counter = 4, pseudo_plan_node_id_counter = 99,
              degree_of_parallelism = 4\<rparr>))
   \<and> (16384 :: int) = 4096 * max 1 4"
proof -
  let ?st = "\<lparr>chunk_size = 4096\<rparr>"
  let ?ctx = "\<lparr>pipelines = [], operator_id_counter = 2, pseudo_plan_node_id_counter = 100,
               degree_of_parallelism = 4\<rparr>"
  have h1: "[SourceOperatorFactory 0 7 4, OperatorFactory 1 7] = SourceOperatorFactory 0 7 4 # [OperatorFactory 1 7]"
    by simp
  have h2: "source_degree_of_parallelism (SourceOperatorFactory 0 7 4) = Inr 4" by simp
  have h3: "uint (4 :: size_t) \<noteq> sint (1 :: int32)" by simp
  have h4: "uint (4 :: size_t) < 2 ^ 31" by simp
  have h5: "0 \<le> sint (1 :: int32)" by simp
  have h6: "0 \<le> sint (chunk_size ?st)" by simp
  have h7: "sint (chunk_size ?st) * max (sint (1 :: int32)) (uint (4 :: size_t)) < 2 ^ 31" by simp
  obtain mem dop' where
    run: "maybe_interpolate_local_passthrough_exchange ?st
            [SourceOperatorFactory 0 7 4, OperatorFactory 1 7] 1 ([], ?ctx) =
          Inr ([LocalExchangeSourceOperatorFactory 2 100 mem dop'],
               [SourceOperatorFactory 0 7 4, OperatorFactory 1 7, LocalExchangeSinkOperatorFactory 3 100 0],
               ([PassthroughExchanger mem 2],
                \<lparr>pipelines = [Pipeline [SourceOperatorFactory 0 7 4, OperatorFactory 1 7,
                                         LocalExchangeSinkOperatorFactory 3 100 0]],
                 operator_id_counter = 4, pseudo_plan_node_id_counter = 99,
                 degree_of_parallelism = 4\<rparr>))"
    and mem: "uint mem = 16384" and dop': "uint dop' = 1"
    using C4_passthrough_inserts_exchange [OF h1 h2 h3 h4 h5 h6 h7, of "[]" ?ctx] by auto
  have "mem = word_of_int (uint mem)" by simp
  then have m: "mem = 16384" by (simp only: mem) simp
  have "dop' = word_of_int (uint dop')" by simp
  then have d: "dop' = 1" by (simp only: dop') simp
  from run m d h1 h2 h3 h4 h5 h6 h7 show ?thesis by simp
qed


lemma is_source_dop: "is_source op0 \<Longrightarrow> \<exists>d. source_degree_of_parallelism op0 = Inr d"
  by (cases op0) simp_all

lemma starts_with_source_dop:
  "starts_with_source p \<Longrightarrow>
   \<exists>op0 rest. p = op0 # rest \<and> source_degree_of_parallelism op0 = Inr (pred_dop p)"
  by (cases p) (auto simp: starts_with_source_def pred_dop_def dest: is_source_dop)

lemma size_t_product_as_int:
  "(d :: size_t) * scast (c :: int32) = word_of_int (uint d * sint c)"
proof -
  have "word_of_int (uint d * sint c) = (word_of_int (uint d) :: size_t) * word_of_int (sint c)"
    by simp
  then show ?thesis by simp
qed

lemma uint_size_t_product:
  "uint ((d :: size_t) * scast (c :: int32)) = (uint d * sint c) mod 2 ^ 64"
  by (simp only: size_t_product_as_int uint_word_of_int) simp

lemma sum_list_size_t_as_int:
  "(sum_list (map (\<lambda>p. pred_dop p * scast (c :: int32)) preds) :: size_t) =
     word_of_int (\<Sum>p\<leftarrow>preds. uint (pred_dop p) * sint c)"
proof (induction preds)
  case Nil
  then show ?case by simp
next
  case (Cons p ps)
  let ?f = "\<lambda>p. pred_dop p * scast c"
  let ?g = "\<lambda>p. uint (pred_dop p) * sint c"
  have "(sum_list (map ?f (p # ps)) :: size_t) = ?f p + sum_list (map ?f ps)"
    by simp
  also have "\<dots> = ?f p + word_of_int (sum_list (map ?g ps))"
    by (simp only: Cons.IH)
  also have "\<dots> = word_of_int (?g p) + word_of_int (sum_list (map ?g ps))"
    by (simp only: size_t_product_as_int)
  also have "\<dots> = word_of_int (?g p + sum_list (map ?g ps))"
    by simp
  also have "\<dots> = word_of_int (sum_list (map ?g (p # ps)))"
    by simp
  finally show ?case .
qed

lemma uint_sum_list_size_t:
  "uint (sum_list (map (\<lambda>p. pred_dop p * scast (c :: int32)) preds) :: size_t) =
     (\<Sum>p\<leftarrow>preds. uint (pred_dop p) * sint c) mod 2 ^ 64"
  by (simp only: sum_list_size_t_as_int uint_word_of_int) simp

lemma gather_row_count_sum:
  "\<forall>p \<in> set preds. starts_with_source p \<Longrightarrow>
   gather_row_count state preds acc =
     Inr (acc + sum_list (map (\<lambda>p. pred_dop p * scast (chunk_size state)) preds))"
proof (induction preds arbitrary: acc)
  case Nil
  then show ?case by simp
next
  case (Cons p ps)
  from Cons.prems obtain op0 rest where
    p: "p = op0 # rest" and d: "source_degree_of_parallelism op0 = Inr (pred_dop p)"
    using starts_with_source_dop [of p] by auto
  have "gather_row_count state (p # ps) acc =
          gather_row_count state ps (acc + pred_dop p * scast (chunk_size state))"
    using d by (simp add: p)
  also have "\<dots> = Inr (acc + pred_dop p * scast (chunk_size state)
                       + sum_list (map (\<lambda>p. pred_dop p * scast (chunk_size state)) ps))"
    using Cons.prems by (intro Cons.IH) simp
  finally show ?case by (simp add: add.assoc)
qed

lemma gather_append_sinks_eq:
  "gather_append_sinks pn addr preds ctx =
     (map (\<lambda>(i, p). p @ [LocalExchangeSinkOperatorFactory (operator_id_counter ctx + of_nat i) pn addr])
        (enumerate 0 preds),
      ctx\<lparr>pipelines := pipelines ctx @
             map (\<lambda>(i, p). Pipeline
                    (p @ [LocalExchangeSinkOperatorFactory (operator_id_counter ctx + of_nat i) pn addr]))
               (enumerate 0 preds),
          operator_id_counter := operator_id_counter ctx + of_nat (length preds)\<rparr>)"
proof (induction preds arbitrary: ctx)
  case Nil
  then show ?case by simp
next
  case (Cons p ps)
  show ?case
    by (simp add: Cons.IH next_operator_id_def add_pipeline_def Let_def enumerate_Suc_eq
        comp_def case_prod_beta add.assoc add.commute [of 1])
qed


lemma passthrough_store:
  "maybe_interpolate_local_passthrough_exchange state pred_operators num_receivers (store, ctx) =
     Inr (ret, pred', (store', ctx')) \<Longrightarrow>
   store' = store \<or> (\<exists>mem src. store' = store @ [PassthroughExchanger mem src])"
  by (auto simp: maybe_interpolate_local_passthrough_exchange_def next_pseudo_plan_node_id_def
      next_operator_id_def add_pipeline_def Let_def
      split: list.splits sum.splits if_splits)

text \<open>
  Claim C6. With one receiver, broadcast interpolation is passthrough interpolation
  with one receiver: the same result for every predecessor sequence and state, faults
  included, and whatever it allocates is a PassthroughExchanger. With two or more
  receivers (chunk size not negative, the product within \<open>int\<close>) it allocates one
  BroadcastExchanger of budget chunk size times the square of \<open>num_receivers\<close>,
  appends its sink to the predecessor sequence, whatever that is, seals it as a
  pipeline, and returns the exchange source alone, with parallelism \<open>num_receivers\<close>.
\<close>

theorem C6_broadcast_interpolation:
  "maybe_interpolate_local_broadcast_exchange state pred_operators 1 \<sigma> =
     maybe_interpolate_local_passthrough_exchange state pred_operators 1 \<sigma>
   \<and> (\<forall>ret pred' store' ctx'.
        maybe_interpolate_local_broadcast_exchange state pred_operators 1 (store, ctx) =
          Inr (ret, pred', (store', ctx')) \<longrightarrow>
        store' = store \<or> (\<exists>mem src. store' = store @ [PassthroughExchanger mem src]))
   \<and> (2 \<le> sint num_receivers \<and> 0 \<le> sint (chunk_size state)
        \<and> sint (chunk_size state) * sint num_receivers * sint num_receivers < 2 ^ 31 \<longrightarrow>
        (\<exists>mem dop'.
           maybe_interpolate_local_broadcast_exchange state pred_operators num_receivers (store, ctx) =
             Inr ([LocalExchangeSourceOperatorFactory (operator_id_counter ctx)
                     (pseudo_plan_node_id_counter ctx) mem dop'],
                  pred_operators @ [LocalExchangeSinkOperatorFactory (operator_id_counter ctx + 1)
                     (pseudo_plan_node_id_counter ctx) (length store)],
                  (store @ [BroadcastExchanger mem (operator_id_counter ctx)],
                   ctx\<lparr>pipelines := pipelines ctx @
                          [Pipeline (pred_operators @ [LocalExchangeSinkOperatorFactory
                             (operator_id_counter ctx + 1) (pseudo_plan_node_id_counter ctx) (length store)])],
                       operator_id_counter := operator_id_counter ctx + 2,
                       pseudo_plan_node_id_counter := pseudo_plan_node_id_counter ctx - 1\<rparr>))
           \<and> uint mem = sint (chunk_size state) * (sint num_receivers) ^ 2
           \<and> uint dop' = sint num_receivers))"
proof (intro conjI impI)
  show "maybe_interpolate_local_broadcast_exchange state pred_operators 1 \<sigma> =
     maybe_interpolate_local_passthrough_exchange state pred_operators 1 \<sigma>"
    by (rule broadcast_one_receiver)
next
  show "\<forall>ret pred' store' ctx'.
        maybe_interpolate_local_broadcast_exchange state pred_operators 1 (store, ctx) =
          Inr (ret, pred', (store', ctx')) \<longrightarrow>
        store' = store \<or> (\<exists>mem src. store' = store @ [PassthroughExchanger mem src])"
    by (simp only: broadcast_one_receiver) (blast dest: passthrough_store)
next
  assume h: "2 \<le> sint num_receivers \<and> 0 \<le> sint (chunk_size state)
        \<and> sint (chunk_size state) * sint num_receivers * sint num_receivers < 2 ^ 31"
  let ?c = "sint (chunk_size state)" and ?n = "sint num_receivers"
  let ?r1 = "chunk_size state * num_receivers"
  let ?rows = "?r1 * num_receivers"
  from h have n2: "2 \<le> ?n" and c0: "0 \<le> ?c" and hi2: "?c * ?n * ?n < 2 ^ 31" by simp_all
  have cn0: "0 \<le> ?c * ?n" using n2 c0 by simp
  have "?c * ?n * 1 \<le> ?c * ?n * ?n"
    using cn0 n2 by (intro mult_left_mono) simp_all
  then have hi1: "?c * ?n < 2 ^ 31" using hi2 by simp
  have lo1: "- (2 ^ 31) \<le> ?c * ?n"
  proof -
    have "- (2 ^ 31) \<le> (0 :: int)" by simp
    also note cn0
    finally show ?thesis .
  qed
  have mul1: "int_mul (chunk_size state) num_receivers = Inr ?r1"
    and r1: "sint ?r1 = ?c * ?n"
    using int_mul_in_range [OF lo1 hi1] by simp_all
  have cnn0: "0 \<le> sint ?r1 * ?n" using cn0 n2 by (simp add: r1)
  have lo2: "- (2 ^ 31) \<le> sint ?r1 * ?n"
  proof -
    have "- (2 ^ 31) \<le> (0 :: int)" by simp
    also note cnn0
    finally show ?thesis .
  qed
  have hi2': "sint ?r1 * ?n < 2 ^ 31" using hi2 by (simp only: r1)
  have mul2: "int_mul ?r1 num_receivers = Inr ?rows"
    and rows: "sint ?rows = sint ?r1 * ?n"
    using int_mul_in_range [OF lo2 hi2'] by simp_all
  have ne: "num_receivers \<noteq> 1" using n2 by auto
  have rows0: "0 \<le> sint ?rows" using cnn0 by (simp only: rows)
  have "uint (scast ?rows :: size_t) = sint ?rows"
    using rows0 by (rule uint_scast_nonneg)
  also have "\<dots> = ?c * ?n * ?n" by (simp only: rows r1)
  also have "\<dots> = ?c * ?n ^ 2" by (simp add: power2_eq_square)
  finally have mem: "uint (scast ?rows :: size_t) = ?c * ?n ^ 2" .
  have dop': "uint (scast num_receivers :: size_t) = ?n"
    using n2 by (intro uint_scast_nonneg) simp
  show "\<exists>mem dop'.
           maybe_interpolate_local_broadcast_exchange state pred_operators num_receivers (store, ctx) =
             Inr ([LocalExchangeSourceOperatorFactory (operator_id_counter ctx)
                     (pseudo_plan_node_id_counter ctx) mem dop'],
                  pred_operators @ [LocalExchangeSinkOperatorFactory (operator_id_counter ctx + 1)
                     (pseudo_plan_node_id_counter ctx) (length store)],
                  (store @ [BroadcastExchanger mem (operator_id_counter ctx)],
                   ctx\<lparr>pipelines := pipelines ctx @
                          [Pipeline (pred_operators @ [LocalExchangeSinkOperatorFactory
                             (operator_id_counter ctx + 1) (pseudo_plan_node_id_counter ctx) (length store)])],
                       operator_id_counter := operator_id_counter ctx + 2,
                       pseudo_plan_node_id_counter := pseudo_plan_node_id_counter ctx - 1\<rparr>))
           \<and> uint mem = sint (chunk_size state) * (sint num_receivers) ^ 2
           \<and> uint dop' = sint num_receivers"
    using broadcast_many_receivers [OF ne mul1 mul2, of pred_operators store ctx] mem dop'
    by (intro exI [of _ "scast ?rows"] exI [of _ "scast num_receivers"]) simp
qed


lemma shuffle_single_partition:
  assumes "source_degree_of_parallelism op0 = Inr pdop" and "degree_of_parallelism ctx \<le> 1"
  shows "maybe_interpolate_local_shuffle_exchange state (op0 # rest) exprs part_type (store, ctx) =
           Inr (op0 # rest, op0 # rest, (store, ctx))"
  using assms source_dop_is_source [OF assms(1)]
  by (simp add: maybe_interpolate_local_shuffle_exchange_def Let_def)

lemma shuffle_many_partitions:
  assumes "source_degree_of_parallelism op0 = Inr pdop" and "\<not> degree_of_parallelism ctx \<le> 1"
  shows "maybe_interpolate_local_shuffle_exchange state (op0 # rest) exprs part_type (store, ctx) =
           Inr ([LocalExchangeSourceOperatorFactory (operator_id_counter ctx)
                   (pseudo_plan_node_id_counter ctx)
                   (degree_of_parallelism ctx * scast (chunk_size state)) (degree_of_parallelism ctx)],
                op0 # rest @ [LocalExchangeSinkOperatorFactory (operator_id_counter ctx + 1)
                   (pseudo_plan_node_id_counter ctx) (length store)],
                (store @ [PartitionExchanger (degree_of_parallelism ctx * scast (chunk_size state))
                            (operator_id_counter ctx) part_type exprs pdop],
                 ctx\<lparr>pipelines := pipelines ctx @
                        [Pipeline (op0 # rest @ [LocalExchangeSinkOperatorFactory
                           (operator_id_counter ctx + 1) (pseudo_plan_node_id_counter ctx) (length store)])],
                     operator_id_counter := operator_id_counter ctx + 2,
                     pseudo_plan_node_id_counter := pseudo_plan_node_id_counter ctx - 1\<rparr>))"
  using assms source_dop_is_source [OF assms(1)]
  by (simp add: maybe_interpolate_local_shuffle_exchange_def next_pseudo_plan_node_id_def
      next_operator_id_def add_pipeline_def Let_def)

lemma size_t_two_le: "(2 :: size_t) \<le> w \<Longrightarrow> \<not> w \<le> 1"
  by (simp add: word_le_nat_alt)

text \<open>
  Claim C7. The target parallelism of shuffle interpolation is the degree of
  parallelism of the builder context. For a sequence that begins with a source
  factory: when the target is at most 1 the sequence comes back as it is and nothing
  is allocated or sealed; when it is 2 or more, one PartitionExchanger is allocated,
  carrying the partition type, the partition expressions and the parallelism of the
  predecessor, its sink is appended to the predecessor sequence, which is sealed as a
  pipeline, and the shuffle source is returned alone with the target parallelism. The
  budget is target parallelism times chunk size, computed in \<open>size_t\<close>: the product
  itself whenever that fits.
\<close>

theorem C7_shuffle_interpolation:
  assumes "pred_operators = op0 # rest"
    and "source_degree_of_parallelism op0 = Inr pdop"
  shows "(degree_of_parallelism ctx \<le> 1 \<longrightarrow>
            maybe_interpolate_local_shuffle_exchange state pred_operators exprs part_type (store, ctx) =
              Inr (pred_operators, pred_operators, (store, ctx)))
         \<and> (2 \<le> degree_of_parallelism ctx \<longrightarrow>
              (\<exists>mem.
                 maybe_interpolate_local_shuffle_exchange state pred_operators exprs part_type (store, ctx) =
                   Inr ([LocalExchangeSourceOperatorFactory (operator_id_counter ctx)
                           (pseudo_plan_node_id_counter ctx) mem (degree_of_parallelism ctx)],
                        pred_operators @ [LocalExchangeSinkOperatorFactory (operator_id_counter ctx + 1)
                           (pseudo_plan_node_id_counter ctx) (length store)],
                        (store @ [PartitionExchanger mem (operator_id_counter ctx) part_type exprs pdop],
                         ctx\<lparr>pipelines := pipelines ctx @
                                [Pipeline (pred_operators @ [LocalExchangeSinkOperatorFactory
                                   (operator_id_counter ctx + 1) (pseudo_plan_node_id_counter ctx)
                                   (length store)])],
                             operator_id_counter := operator_id_counter ctx + 2,
                             pseudo_plan_node_id_counter := pseudo_plan_node_id_counter ctx - 1\<rparr>))
                 \<and> uint mem = (uint (degree_of_parallelism ctx) * sint (chunk_size state)) mod 2 ^ 64
                 \<and> (0 \<le> sint (chunk_size state)
                      \<and> uint (degree_of_parallelism ctx) * sint (chunk_size state) < 2 ^ 64 \<longrightarrow>
                      uint mem = uint (degree_of_parallelism ctx) * sint (chunk_size state))))"
proof (intro conjI impI)
  assume "degree_of_parallelism ctx \<le> 1"
  then show "maybe_interpolate_local_shuffle_exchange state pred_operators exprs part_type (store, ctx) =
              Inr (pred_operators, pred_operators, (store, ctx))"
    using shuffle_single_partition [OF assms(2)] assms(1) by simp
next
  assume "2 \<le> degree_of_parallelism ctx"
  then have many: "\<not> degree_of_parallelism ctx \<le> 1" by (rule size_t_two_le)
  let ?d = "degree_of_parallelism ctx"
  let ?mem = "?d * scast (chunk_size state)"
  have m: "uint ?mem = (uint ?d * sint (chunk_size state)) mod 2 ^ 64"
    by (rule uint_size_t_product)
  have fits: "0 \<le> sint (chunk_size state) \<and> uint ?d * sint (chunk_size state) < 2 ^ 64 \<longrightarrow>
      uint ?mem = uint ?d * sint (chunk_size state)"
  proof
    assume h: "0 \<le> sint (chunk_size state) \<and> uint ?d * sint (chunk_size state) < 2 ^ 64"
    then have "0 \<le> uint ?d * sint (chunk_size state)" by simp
    with h show "uint ?mem = uint ?d * sint (chunk_size state)"
      by (simp only: m) simp
  qed
  show "\<exists>mem.
                 maybe_interpolate_local_shuffle_exchange state pred_operators exprs part_type (store, ctx) =
                   Inr ([LocalExchangeSourceOperatorFactory (operator_id_counter ctx)
                           (pseudo_plan_node_id_counter ctx) mem (degree_of_parallelism ctx)],
                        pred_operators @ [LocalExchangeSinkOperatorFactory (operator_id_counter ctx + 1)
                           (pseudo_plan_node_id_counter ctx) (length store)],
                        (store @ [PartitionExchanger mem (operator_id_counter ctx) part_type exprs pdop],
                         ctx\<lparr>pipelines := pipelines ctx @
                                [Pipeline (pred_operators @ [LocalExchangeSinkOperatorFactory
                                   (operator_id_counter ctx + 1) (pseudo_plan_node_id_counter ctx)
                                   (length store)])],
                             operator_id_counter := operator_id_counter ctx + 2,
                             pseudo_plan_node_id_counter := pseudo_plan_node_id_counter ctx - 1\<rparr>))
                 \<and> uint mem = (uint (degree_of_parallelism ctx) * sint (chunk_size state)) mod 2 ^ 64
                 \<and> (0 \<le> sint (chunk_size state)
                      \<and> uint (degree_of_parallelism ctx) * sint (chunk_size state) < 2 ^ 64 \<longrightarrow>
                      uint mem = uint (degree_of_parallelism ctx) * sint (chunk_size state))"
    using shuffle_many_partitions [OF assms(2) many, of state rest exprs part_type store] m fits assms(1)
    by (intro exI [of _ ?mem]) simp
qed

lemma gather_single:
  "maybe_gather_pipelines_to_one state [pred_operators] \<sigma> =
     Inr (pred_operators, [pred_operators], \<sigma>)"
  by (simp add: maybe_gather_pipelines_to_one_def)

lemma gather_many:
  assumes "length preds \<noteq> 1" and "\<forall>p \<in> set preds. starts_with_source p"
  shows "maybe_gather_pipelines_to_one state preds (store, ctx) =
     Inr ([LocalExchangeSourceOperatorFactory (operator_id_counter ctx) (pseudo_plan_node_id_counter ctx)
             (sum_list (map (\<lambda>p. pred_dop p * scast (chunk_size state)) preds))
             (degree_of_parallelism ctx)],
          map (\<lambda>(i, p). p @ [LocalExchangeSinkOperatorFactory (operator_id_counter ctx + 1 + of_nat i)
                 (pseudo_plan_node_id_counter ctx) (length store)]) (enumerate 0 preds),
          (store @ [PassthroughExchanger
                      (sum_list (map (\<lambda>p. pred_dop p * scast (chunk_size state)) preds))
                      (operator_id_counter ctx)],
           ctx\<lparr>pipelines := pipelines ctx @
                  map Pipeline
                    (map (\<lambda>(i, p). p @ [LocalExchangeSinkOperatorFactory
                            (operator_id_counter ctx + 1 + of_nat i)
                            (pseudo_plan_node_id_counter ctx) (length store)]) (enumerate 0 preds)),
               operator_id_counter := operator_id_counter ctx + 1 + of_nat (length preds),
               pseudo_plan_node_id_counter := pseudo_plan_node_id_counter ctx - 1\<rparr>))"
  using assms(1) gather_row_count_sum [OF assms(2), of state 0]
  by (simp add: maybe_gather_pipelines_to_one_def gather_append_sinks_eq next_pseudo_plan_node_id_def
      next_operator_id_def Let_def comp_def case_prod_beta)


text \<open>
  Claim C8. \<open>maybe_gather_pipelines_to_one\<close> on a list of one sequence returns that
  sequence and changes nothing. On a list of more than one sequence, each beginning
  with a source factory, it allocates exactly one PassthroughExchanger; every
  sequence, in order, gets a sink appended whose exchanger is that one (its address is
  the position of the new exchanger in the store), and is sealed as a pipeline of its
  own; what is returned is the exchange source alone, with the parallelism of the
  context. The budget is the sum, over the sequences, of the parallelism of the head
  times the chunk size, computed in \<open>size_t\<close>: the sum itself whenever that fits.
\<close>

theorem C8_gather_pipelines_to_one:
  "maybe_gather_pipelines_to_one state [pred_operators] \<sigma> =
     Inr (pred_operators, [pred_operators], \<sigma>)
   \<and> (1 < length preds \<and> (\<forall>p \<in> set preds. starts_with_source p) \<longrightarrow>
        (\<exists>mem preds'.
           maybe_gather_pipelines_to_one state preds (store, ctx) =
             Inr ([LocalExchangeSourceOperatorFactory (operator_id_counter ctx)
                     (pseudo_plan_node_id_counter ctx) mem (degree_of_parallelism ctx)],
                  preds',
                  (store @ [PassthroughExchanger mem (operator_id_counter ctx)],
                   ctx\<lparr>pipelines := pipelines ctx @ map Pipeline preds',
                       operator_id_counter := operator_id_counter ctx + 1 + of_nat (length preds),
                       pseudo_plan_node_id_counter := pseudo_plan_node_id_counter ctx - 1\<rparr>))
           \<and> preds' =
               map (\<lambda>(i, p). p @ [LocalExchangeSinkOperatorFactory (operator_id_counter ctx + 1 + of_nat i)
                      (pseudo_plan_node_id_counter ctx) (length store)]) (enumerate 0 preds)
           \<and> uint mem = (\<Sum>p\<leftarrow>preds. uint (pred_dop p) * sint (chunk_size state)) mod 2 ^ 64
           \<and> (0 \<le> sint (chunk_size state)
                \<and> (\<Sum>p\<leftarrow>preds. uint (pred_dop p) * sint (chunk_size state)) < 2 ^ 64 \<longrightarrow>
                uint mem = (\<Sum>p\<leftarrow>preds. uint (pred_dop p) * sint (chunk_size state)))))"
proof (intro conjI impI)
  show "maybe_gather_pipelines_to_one state [pred_operators] \<sigma> =
     Inr (pred_operators, [pred_operators], \<sigma>)"
    by (rule gather_single)
next
  assume h: "1 < length preds \<and> (\<forall>p \<in> set preds. starts_with_source p)"
  then have k: "length preds \<noteq> 1" and wf: "\<forall>p \<in> set preds. starts_with_source p" by simp_all
  let ?total = "\<Sum>p\<leftarrow>preds. uint (pred_dop p) * sint (chunk_size state)"
  let ?mem = "sum_list (map (\<lambda>p. pred_dop p * scast (chunk_size state)) preds) :: size_t"
  let ?preds' = "map (\<lambda>(i, p). p @ [LocalExchangeSinkOperatorFactory (operator_id_counter ctx + 1 + of_nat i)
                      (pseudo_plan_node_id_counter ctx) (length store)]) (enumerate 0 preds)"
  have m: "uint ?mem = ?total mod 2 ^ 64"
    by (rule uint_sum_list_size_t)
  have fits: "0 \<le> sint (chunk_size state) \<and> ?total < 2 ^ 64 \<longrightarrow> uint ?mem = ?total"
  proof
    assume f: "0 \<le> sint (chunk_size state) \<and> ?total < 2 ^ 64"
    then have "0 \<le> ?total" by (intro sum_list_nonneg) auto
    with f show "uint ?mem = ?total" by (simp only: m) simp
  qed
  show "\<exists>mem preds'.
           maybe_gather_pipelines_to_one state preds (store, ctx) =
             Inr ([LocalExchangeSourceOperatorFactory (operator_id_counter ctx)
                     (pseudo_plan_node_id_counter ctx) mem (degree_of_parallelism ctx)],
                  preds',
                  (store @ [PassthroughExchanger mem (operator_id_counter ctx)],
                   ctx\<lparr>pipelines := pipelines ctx @ map Pipeline preds',
                       operator_id_counter := operator_id_counter ctx + 1 + of_nat (length preds),
                       pseudo_plan_node_id_counter := pseudo_plan_node_id_counter ctx - 1\<rparr>))
           \<and> preds' =
               map (\<lambda>(i, p). p @ [LocalExchangeSinkOperatorFactory (operator_id_counter ctx + 1 + of_nat i)
                      (pseudo_plan_node_id_counter ctx) (length store)]) (enumerate 0 preds)
           \<and> uint mem = (\<Sum>p\<leftarrow>preds. uint (pred_dop p) * sint (chunk_size state)) mod 2 ^ 64
           \<and> (0 \<le> sint (chunk_size state)
                \<and> (\<Sum>p\<leftarrow>preds. uint (pred_dop p) * sint (chunk_size state)) < 2 ^ 64 \<longrightarrow>
                uint mem = (\<Sum>p\<leftarrow>preds. uint (pred_dop p) * sint (chunk_size state)))"
    using gather_many [OF k wf, of state store ctx] m fits
    by (intro exI [of _ ?mem] exI [of _ ?preds']) simp
qed


text \<open>
  A source of parallelism 2 with 4096 rows per chunk: three receivers give a broadcast
  exchanger of budget \<open>4096 * 3 * 3\<close>, one receiver gives the passthrough exchanger of
  budget \<open>4096 * max 1 2\<close>.
\<close>

theorem C6_broadcast_witness:
  "2 \<le> sint (3 :: int32) \<and> 0 \<le> sint (chunk_size \<lparr>chunk_size = 4096\<rparr>)
   \<and> sint (chunk_size \<lparr>chunk_size = 4096\<rparr>) * sint (3 :: int32) * sint (3 :: int32) < 2 ^ 31
   \<and> maybe_interpolate_local_broadcast_exchange \<lparr>chunk_size = 4096\<rparr> [SourceOperatorFactory 0 7 2] 3
        ([], \<lparr>pipelines = [], operator_id_counter = 1, pseudo_plan_node_id_counter = 100,
               degree_of_parallelism = 2\<rparr>) =
       Inr ([LocalExchangeSourceOperatorFactory 1 100 36864 3],
            [SourceOperatorFactory 0 7 2, LocalExchangeSinkOperatorFactory 2 100 0],
            ([BroadcastExchanger 36864 1],
             \<lparr>pipelines = [Pipeline [SourceOperatorFactory 0 7 2, LocalExchangeSinkOperatorFactory 2 100 0]],
              operator_id_counter = 3, pseudo_plan_node_id_counter = 99, degree_of_parallelism = 2\<rparr>))
   \<and> maybe_interpolate_local_broadcast_exchange \<lparr>chunk_size = 4096\<rparr> [SourceOperatorFactory 0 7 2] 1
        ([], \<lparr>pipelines = [], operator_id_counter = 1, pseudo_plan_node_id_counter = 100,
               degree_of_parallelism = 2\<rparr>) =
       Inr ([LocalExchangeSourceOperatorFactory 1 100 8192 1],
            [SourceOperatorFactory 0 7 2, LocalExchangeSinkOperatorFactory 2 100 0],
            ([PassthroughExchanger 8192 1],
             \<lparr>pipelines = [Pipeline [SourceOperatorFactory 0 7 2, LocalExchangeSinkOperatorFactory 2 100 0]],
              operator_id_counter = 3, pseudo_plan_node_id_counter = 99, degree_of_parallelism = 2\<rparr>))
   \<and> ([PassthroughExchanger 8192 1] = []
        \<or> (\<exists>mem src. [PassthroughExchanger 8192 1] = [] @ [PassthroughExchanger mem src]))"
proof -
  let ?st = "\<lparr>chunk_size = 4096\<rparr>"
  let ?pred = "[SourceOperatorFactory 0 7 2]"
  let ?ctx = "\<lparr>pipelines = [], operator_id_counter = 1, pseudo_plan_node_id_counter = 100,
               degree_of_parallelism = 2\<rparr>"
  let ?ctx' = "\<lparr>pipelines = [Pipeline [SourceOperatorFactory 0 7 2, LocalExchangeSinkOperatorFactory 2 100 0]],
              operator_id_counter = 3, pseudo_plan_node_id_counter = 99, degree_of_parallelism = 2\<rparr>"
  note inst = C6_broadcast_interpolation [of ?st ?pred "([], ?ctx)" "[]" ?ctx 3]
  have h: "2 \<le> sint (3 :: int32) \<and> 0 \<le> sint (chunk_size ?st)
      \<and> sint (chunk_size ?st) * sint (3 :: int32) * sint (3 :: int32) < 2 ^ 31"
    by simp
  from inst h obtain mem dop' where
    run: "maybe_interpolate_local_broadcast_exchange ?st ?pred 3 ([], ?ctx) =
          Inr ([LocalExchangeSourceOperatorFactory 1 100 mem dop'],
               [SourceOperatorFactory 0 7 2, LocalExchangeSinkOperatorFactory 2 100 0],
               ([BroadcastExchanger mem 1], ?ctx'))"
    and mem: "uint mem = 36864" and dop': "uint dop' = 3"
    by auto
  have "mem = word_of_int (uint mem)" by simp
  then have m: "mem = 36864" by (simp only: mem) simp
  have "dop' = word_of_int (uint dop')" by simp
  then have d: "dop' = 3" by (simp only: dop') simp
  have pass: "maybe_interpolate_local_passthrough_exchange ?st ?pred 1 ([], ?ctx) =
       Inr ([LocalExchangeSourceOperatorFactory 1 100 8192 1],
            [SourceOperatorFactory 0 7 2, LocalExchangeSinkOperatorFactory 2 100 0],
            ([PassthroughExchanger 8192 1], ?ctx'))"
    by (simp add: maybe_interpolate_local_passthrough_exchange_def next_pseudo_plan_node_id_def
        next_operator_id_def add_pipeline_def Let_def int_mul_def int_max_def)
  from inst have "maybe_interpolate_local_broadcast_exchange ?st ?pred 1 ([], ?ctx) =
      maybe_interpolate_local_passthrough_exchange ?st ?pred 1 ([], ?ctx)"
    by blast
  with pass have one: "maybe_interpolate_local_broadcast_exchange ?st ?pred 1 ([], ?ctx) =
       Inr ([LocalExchangeSourceOperatorFactory 1 100 8192 1],
            [SourceOperatorFactory 0 7 2, LocalExchangeSinkOperatorFactory 2 100 0],
            ([PassthroughExchanger 8192 1], ?ctx'))"
    by simp
  from inst one have no_broadcast: "[PassthroughExchanger 8192 1] = []
        \<or> (\<exists>mem src. [PassthroughExchanger 8192 1] = [] @ [PassthroughExchanger mem src])"
    by blast
  from h run m d one no_broadcast show ?thesis by simp
qed

text \<open>
  A source of parallelism 4: a context of parallelism 1 changes nothing, a context of
  parallelism 8 gives a partition exchanger of budget \<open>8 * 4096\<close>.
\<close>

theorem C7_shuffle_witness:
  "[SourceOperatorFactory 0 7 4] = SourceOperatorFactory 0 7 4 # []
   \<and> source_degree_of_parallelism (SourceOperatorFactory 0 7 4) = Inr 4
   \<and> (1 :: size_t) \<le> 1 \<and> (2 :: size_t) \<le> 8
   \<and> 0 \<le> sint (chunk_size \<lparr>chunk_size = 4096\<rparr>)
   \<and> uint (8 :: size_t) * sint (chunk_size \<lparr>chunk_size = 4096\<rparr>) < 2 ^ 64
   \<and> maybe_interpolate_local_shuffle_exchange \<lparr>chunk_size = 4096\<rparr> [SourceOperatorFactory 0 7 4] [11, 12] 2
        ([], \<lparr>pipelines = [], operator_id_counter = 1, pseudo_plan_node_id_counter = 100,
               degree_of_parallelism = 1\<rparr>) =
       Inr ([SourceOperatorFactory 0 7 4], [SourceOperatorFactory 0 7 4],
            ([], \<lparr>pipelines = [], operator_id_counter = 1, pseudo_plan_node_id_counter = 100,
                   degree_of_parallelism = 1\<rparr>))
   \<and> maybe_interpolate_local_shuffle_exchange \<lparr>chunk_size = 4096\<rparr> [SourceOperatorFactory 0 7 4] [11, 12] 2
        ([], \<lparr>pipelines = [], operator_id_counter = 1, pseudo_plan_node_id_counter = 100,
               degree_of_parallelism = 8\<rparr>) =
       Inr ([LocalExchangeSourceOperatorFactory 1 100 32768 8],
            [SourceOperatorFactory 0 7 4, LocalExchangeSinkOperatorFactory 2 100 0],
            ([PartitionExchanger 32768 1 2 [11, 12] 4],
             \<lparr>pipelines = [Pipeline [SourceOperatorFactory 0 7 4, LocalExchangeSinkOperatorFactory 2 100 0]],
              operator_id_counter = 3, pseudo_plan_node_id_counter = 99, degree_of_parallelism = 8\<rparr>))"
proof -
  let ?st = "\<lparr>chunk_size = 4096\<rparr>"
  let ?ctx1 = "\<lparr>pipelines = [], operator_id_counter = 1, pseudo_plan_node_id_counter = 100,
               degree_of_parallelism = 1\<rparr>"
  let ?ctx8 = "\<lparr>pipelines = [], operator_id_counter = 1, pseudo_plan_node_id_counter = 100,
               degree_of_parallelism = 8\<rparr>"
  have h1: "[SourceOperatorFactory 0 7 4] = SourceOperatorFactory 0 7 4 # []" by simp
  have h2: "source_degree_of_parallelism (SourceOperatorFactory 0 7 4) = Inr 4" by simp
  have one: "degree_of_parallelism ?ctx1 \<le> 1" by simp
  have many: "2 \<le> degree_of_parallelism ?ctx8" by simp
  have fits: "0 \<le> sint (chunk_size ?st)
      \<and> uint (degree_of_parallelism ?ctx8) * sint (chunk_size ?st) < 2 ^ 64"
    by simp
  have unchanged: "maybe_interpolate_local_shuffle_exchange ?st [SourceOperatorFactory 0 7 4] [11, 12] 2
        ([], ?ctx1) = Inr ([SourceOperatorFactory 0 7 4], [SourceOperatorFactory 0 7 4], ([], ?ctx1))"
    using C7_shuffle_interpolation [OF h1 h2, of ?ctx1 ?st "[11, 12]" 2 "[]"] one by blast
  from C7_shuffle_interpolation [OF h1 h2, of ?ctx8 ?st "[11, 12]" 2 "[]"] many fits
  obtain mem where
    run: "maybe_interpolate_local_shuffle_exchange ?st [SourceOperatorFactory 0 7 4] [11, 12] 2 ([], ?ctx8) =
       Inr ([LocalExchangeSourceOperatorFactory 1 100 mem 8],
            [SourceOperatorFactory 0 7 4, LocalExchangeSinkOperatorFactory 2 100 0],
            ([PartitionExchanger mem 1 2 [11, 12] 4],
             \<lparr>pipelines = [Pipeline [SourceOperatorFactory 0 7 4, LocalExchangeSinkOperatorFactory 2 100 0]],
              operator_id_counter = 3, pseudo_plan_node_id_counter = 99, degree_of_parallelism = 8\<rparr>))"
    and mem: "uint mem = 32768"
    by auto
  have "mem = word_of_int (uint mem)" by simp
  then have m: "mem = 32768" by (simp only: mem) simp
  from h1 h2 unchanged run m show ?thesis by simp
qed

text \<open>
  Two predecessors of parallelism 4 and 2 with 4096 rows per chunk: one exchanger of
  budget 24576, a sink of it at the end of each predecessor, two sealed pipelines.
\<close>

theorem C8_gather_witness:
  "1 < length [[SourceOperatorFactory 0 7 4], [SourceOperatorFactory 1 8 2, OperatorFactory 2 8]]
   \<and> starts_with_source [SourceOperatorFactory 0 7 4]
   \<and> starts_with_source [SourceOperatorFactory 1 8 2, OperatorFactory 2 8]
   \<and> 0 \<le> sint (chunk_size \<lparr>chunk_size = 4096\<rparr>)
   \<and> (\<Sum>p\<leftarrow>[[SourceOperatorFactory 0 7 4], [SourceOperatorFactory 1 8 2, OperatorFactory 2 8]].
         uint (pred_dop p) * sint (chunk_size \<lparr>chunk_size = 4096\<rparr>)) = 24576
   \<and> maybe_gather_pipelines_to_one \<lparr>chunk_size = 4096\<rparr>
        [[SourceOperatorFactory 0 7 4], [SourceOperatorFactory 1 8 2, OperatorFactory 2 8]]
        ([], \<lparr>pipelines = [], operator_id_counter = 3, pseudo_plan_node_id_counter = 100,
               degree_of_parallelism = 1\<rparr>) =
       Inr ([LocalExchangeSourceOperatorFactory 3 100 24576 1],
            [[SourceOperatorFactory 0 7 4, LocalExchangeSinkOperatorFactory 4 100 0],
             [SourceOperatorFactory 1 8 2, OperatorFactory 2 8, LocalExchangeSinkOperatorFactory 5 100 0]],
            ([PassthroughExchanger 24576 3],
             \<lparr>pipelines =
                [Pipeline [SourceOperatorFactory 0 7 4, LocalExchangeSinkOperatorFactory 4 100 0],
                 Pipeline [SourceOperatorFactory 1 8 2, OperatorFactory 2 8,
                           LocalExchangeSinkOperatorFactory 5 100 0]],
              operator_id_counter = 6, pseudo_plan_node_id_counter = 99, degree_of_parallelism = 1\<rparr>))"
proof -
  let ?st = "\<lparr>chunk_size = 4096\<rparr>"
  let ?preds = "[[SourceOperatorFactory 0 7 4], [SourceOperatorFactory 1 8 2, OperatorFactory 2 8]]"
  let ?ctx = "\<lparr>pipelines = [], operator_id_counter = 3, pseudo_plan_node_id_counter = 100,
               degree_of_parallelism = 1\<rparr>"
  have k: "1 < length ?preds" by simp
  have wf: "\<forall>p \<in> set ?preds. starts_with_source p" by (simp add: starts_with_source_def)
  have c: "0 \<le> sint (chunk_size ?st)" by simp
  have total: "(\<Sum>p\<leftarrow>?preds. uint (pred_dop p) * sint (chunk_size ?st)) = 24576"
    by (simp add: pred_dop_def)
  from C8_gather_pipelines_to_one [of ?st "[]" "([], ?ctx)" ?preds "[]" ?ctx,
      THEN conjunct2, THEN mp, OF conjI, OF k wf] c total
  obtain mem preds' where
    run: "maybe_gather_pipelines_to_one ?st ?preds ([], ?ctx) =
       Inr ([LocalExchangeSourceOperatorFactory 3 100 mem 1], preds',
            ([PassthroughExchanger mem 3],
             \<lparr>pipelines = map Pipeline preds', operator_id_counter = 6,
              pseudo_plan_node_id_counter = 99, degree_of_parallelism = 1\<rparr>))"
    and preds': "preds' =
       [[SourceOperatorFactory 0 7 4, LocalExchangeSinkOperatorFactory 4 100 0],
        [SourceOperatorFactory 1 8 2, OperatorFactory 2 8, LocalExchangeSinkOperatorFactory 5 100 0]]"
    and mem: "uint mem = 24576"
    by (auto simp: enumerate_eq_zip upt_conv_Cons)
  have "mem = word_of_int (uint mem)" by simp
  then have m: "mem = 24576" by (simp only: mem) simp
  from wf have wf': "starts_with_source [SourceOperatorFactory 0 7 4]
      \<and> starts_with_source [SourceOperatorFactory 1 8 2, OperatorFactory 2 8]"
    by simp
  from k wf' c total run preds' m show ?thesis by simp
qed

end
